theory Spec2Isabelle
  imports Complex_Main "HOL-Library.Log_Nat" "HOL-Library.Word"
begin

section \<open>JavaScript numbers\<close>

text \<open>
  Every number of \<^verbatim>\<open>index.tsx\<close> is an IEEE 754 binary64 value. A finite double is
  modelled by the rational it denotes; the two infinities and NaN are constructors of
  their own. The two zeros are identified: the program never divides, never calls
  \<^verbatim>\<open>Object.is\<close>, and prints both as \<^verbatim>\<open>0\<close>, so it cannot tell them apart. The
  operators and the library functions the program calls (\<^verbatim>\<open>*\<close>, \<^verbatim>\<open>+\<close>, \<^verbatim>\<open>>=\<close>,
  \<^verbatim>\<open>||\<close>, \<^verbatim>\<open>Math.round\<close>, \<^verbatim>\<open>parseInt\<close>, \<^verbatim>\<open>String.prototype.match\<close>) follow
  ECMAScript.
\<close>

datatype jsnum = NaN | PInf | NInf | Fin rat

definition pow2 :: "int \<Rightarrow> rat" where
  "pow2 k = (if 0 \<le> k then 2 ^ nat k else 1 / 2 ^ nat (- k))"

text \<open>The binary exponent of a positive rational: \<open>pow2 (ilog2 a) \<le> a < pow2 (ilog2 a + 1)\<close>.\<close>

definition ilog2 :: "rat \<Rightarrow> int" where
  "ilog2 a = (if 1 \<le> a then bitlen \<lfloor>a\<rfloor> - 1 else - bitlen (\<lceil>1 / a\<rceil> - 1))"

definition roundHalfEven :: "rat \<Rightarrow> int" where
  "roundHalfEven x =
     (let n = \<lfloor>x\<rfloor>; r = x - of_int n
      in if r < 1 / 2 then n
         else if 1 / 2 < r then n + 1
         else if even n then n else n + 1)"

text \<open>
  \<open>fl q\<close> is the double nearest to the exact value \<open>q\<close> (round to nearest, ties to
  even). The magnitude is written \<open>m * pow2 (e - 52)\<close> with an integer \<open>m\<close> of at most
  53 bits; the exponent \<open>e\<close> is not below \<open>-1022\<close> (subnormal numbers share the
  spacing of the smallest normal ones), and the result is an infinity when the rounded
  magnitude reaches \<open>pow2 1024\<close>, that is when \<open>e\<close> exceeds 1023 or rounding at
  \<open>e = 1023\<close> carries into a 54th bit. It is how a decimal literal becomes a number
  and how the exact result of \<^verbatim>\<open>*\<close> and \<^verbatim>\<open>+\<close> is stored.
\<close>

definition fl :: "rat \<Rightarrow> jsnum" where
  "fl q =
     (if q = 0 then Fin 0
      else
        let a = \<bar>q\<bar>;
            e = max (ilog2 a) (- 1022);
            u = pow2 (e - 52);
            m = roundHalfEven (a / u)
        in if 1023 < e \<or> (e = 1023 \<and> 2 ^ 53 \<le> m) then (if 0 < q then PInf else NInf)
           else Fin (if 0 < q then of_int m * u else - (of_int m * u)))"

text \<open>The operator \<^verbatim>\<open>*\<close> on numbers.\<close>

fun js_mul :: "jsnum \<Rightarrow> jsnum \<Rightarrow> jsnum" where
  "js_mul NaN y = NaN"
| "js_mul x NaN = NaN"
| "js_mul (Fin a) (Fin b) = fl (a * b)"
| "js_mul (Fin a) PInf = (if a = 0 then NaN else if 0 < a then PInf else NInf)"
| "js_mul (Fin a) NInf = (if a = 0 then NaN else if 0 < a then NInf else PInf)"
| "js_mul PInf (Fin b) = (if b = 0 then NaN else if 0 < b then PInf else NInf)"
| "js_mul NInf (Fin b) = (if b = 0 then NaN else if 0 < b then NInf else PInf)"
| "js_mul PInf PInf = PInf"
| "js_mul PInf NInf = NInf"
| "js_mul NInf PInf = NInf"
| "js_mul NInf NInf = PInf"

text \<open>The operator \<^verbatim>\<open>+\<close> on numbers.\<close>

fun js_add :: "jsnum \<Rightarrow> jsnum \<Rightarrow> jsnum" where
  "js_add NaN y = NaN"
| "js_add x NaN = NaN"
| "js_add (Fin a) (Fin b) = fl (a + b)"
| "js_add (Fin a) PInf = PInf"
| "js_add (Fin a) NInf = NInf"
| "js_add PInf (Fin b) = PInf"
| "js_add NInf (Fin b) = NInf"
| "js_add PInf PInf = PInf"
| "js_add PInf NInf = NaN"
| "js_add NInf PInf = NaN"
| "js_add NInf NInf = NInf"

text \<open>The operator \<^verbatim>\<open>>=\<close> on numbers: false as soon as one side is NaN.\<close>

fun js_ge :: "jsnum \<Rightarrow> jsnum \<Rightarrow> bool" where
  "js_ge NaN y = False"
| "js_ge x NaN = False"
| "js_ge PInf y = True"
| "js_ge x NInf = True"
| "js_ge NInf y = False"
| "js_ge x PInf = False"
| "js_ge (Fin a) (Fin b) = (b \<le> a)"

text \<open>
  \<^verbatim>\<open>Math.round\<close>: the integer nearest to the argument, a tie going towards
  \<open>+\<infinity>\<close>; NaN and the infinities are returned unchanged.
\<close>

fun Math_round :: "jsnum \<Rightarrow> jsnum" where
  "Math_round (Fin x) = Fin (of_int \<lfloor>x + 1 / 2\<rfloor>)"
| "Math_round x = x"

text \<open>\<^verbatim>\<open>x || 0\<close> on a number \<open>x\<close>: the falsy numbers are NaN and zero.\<close>

definition or_zero :: "jsnum \<Rightarrow> jsnum" where
  "or_zero x = (if x = NaN \<or> x = Fin 0 then Fin 0 else x)"

section \<open>The data of the application\<close>

text \<open>
  The five stats index three kinds of object in the source (\<^verbatim>\<open>Stats\<close>, the rows of the
  coefficient tables, and \<^verbatim>\<open>CalculatedResult.individual\<close>), so one record with the five
  fields serves all of them. Field names follow the source; \<open>power\<close>, \<open>max\<close> and
  \<open>total\<close> carry a prime because HOL has constants of those names.
\<close>

record 'a PerStat =
  speed :: 'a
  stamina :: 'a
  power' :: 'a
  guts :: 'a
  wisdom :: 'a

record StatPair =
  current :: jsnum
  max' :: jsnum

type_synonym Stats = "StatPair PerStat"

record CalculatedResult =
  individual :: "jsnum PerStat"
  total' :: jsnum
  rating :: string

text \<open>
  The keys \<^verbatim>\<open>'short' | 'mile' | 'middle' | 'long'\<close> and
  \<^verbatim>\<open>'nige' | 'senko' | 'sashi' | 'oikomi'\<close> of the two state variables. The source
  passes them as strings; every caller passes one of these four.
\<close>

datatype Distance = Short | Mile | Middle | Long

datatype Strategy = Nige | Senko | Sashi | Oikomi

section \<open>calculateEvaluation\<close>

fun distanceCoef :: "Distance \<Rightarrow> jsnum PerStat" where
  "distanceCoef Short =
     \<lparr>speed = fl 1, stamina = fl (5 / 10), power' = fl 1, guts = fl (5 / 10), wisdom = fl (5 / 10)\<rparr>"
| "distanceCoef Mile =
     \<lparr>speed = fl 1, stamina = fl (7 / 10), power' = fl 1, guts = fl (7 / 10), wisdom = fl (7 / 10)\<rparr>"
| "distanceCoef Middle =
     \<lparr>speed = fl 1, stamina = fl 1, power' = fl 1, guts = fl 1, wisdom = fl 1\<rparr>"
| "distanceCoef Long =
     \<lparr>speed = fl (8 / 10), stamina = fl (12 / 10), power' = fl (8 / 10), guts = fl (12 / 10),
      wisdom = fl (12 / 10)\<rparr>"

fun strategyCoef :: "Strategy \<Rightarrow> jsnum PerStat" where
  "strategyCoef Nige =
     \<lparr>speed = fl (12 / 10), stamina = fl (11 / 10), power' = fl 1, guts = fl 1, wisdom = fl (9 / 10)\<rparr>"
| "strategyCoef Senko =
     \<lparr>speed = fl (11 / 10), stamina = fl 1, power' = fl (11 / 10), guts = fl 1, wisdom = fl 1\<rparr>"
| "strategyCoef Sashi =
     \<lparr>speed = fl 1, stamina = fl 1, power' = fl (11 / 10), guts = fl (11 / 10), wisdom = fl 1\<rparr>"
| "strategyCoef Oikomi =
     \<lparr>speed = fl (9 / 10), stamina = fl 1, power' = fl (12 / 10), guts = fl (12 / 10),
      wisdom = fl (11 / 10)\<rparr>"

definition getRating :: "jsnum \<Rightarrow> string" where
  "getRating total_value =
     (if js_ge total_value (fl 6000) then ''SS''
      else if js_ge total_value (fl 5500) then ''S''
      else if js_ge total_value (fl 5000) then ''A+''
      else if js_ge total_value (fl 4500) then ''A''
      else if js_ge total_value (fl 4000) then ''B''
      else ''C'')"

definition calculateEvaluation :: "Stats \<Rightarrow> Distance \<Rightarrow> Strategy \<Rightarrow> CalculatedResult" where
  "calculateEvaluation stats distance strategy =
     (let evaluation =
            \<lparr>speed = js_mul (js_mul (current (speed stats)) (speed (distanceCoef distance)))
                        (speed (strategyCoef strategy)),
             stamina = js_mul (js_mul (current (stamina stats)) (stamina (distanceCoef distance)))
                        (stamina (strategyCoef strategy)),
             power' = js_mul (js_mul (current (power' stats)) (power' (distanceCoef distance)))
                        (power' (strategyCoef strategy)),
             guts = js_mul (js_mul (current (guts stats)) (guts (distanceCoef distance)))
                        (guts (strategyCoef strategy)),
             wisdom = js_mul (js_mul (current (wisdom stats)) (wisdom (distanceCoef distance)))
                        (wisdom (strategyCoef strategy))\<rparr>;
          total_value =
            Math_round
              (js_add (js_add (js_add (js_add (speed evaluation) (stamina evaluation))
                 (power' evaluation)) (guts evaluation)) (wisdom evaluation))
      in \<lparr>individual = evaluation, total' = total_value, rating = getRating total_value\<rparr>)"

text \<open>
  The result card of \<^verbatim>\<open>App\<close> prints \<^verbatim>\<open>Math.round(value)\<close> for each entry of
  \<^verbatim>\<open>calculated.individual\<close>, in the order of the object's keys.
\<close>

definition displayedScores :: "CalculatedResult \<Rightarrow> jsnum list" where
  "displayedScores calculated =
     map Math_round
       [speed (individual calculated), stamina (individual calculated),
        power' (individual calculated), guts (individual calculated),
        wisdom (individual calculated)]"

section \<open>Strings, the digit pattern and parseInt\<close>

text \<open>
  A JavaScript string is a sequence of 16-bit code units. \<open>ascii\<close> writes one from
  an ASCII literal.
\<close>

type_synonym js_string = "16 word list"

definition ascii :: "string \<Rightarrow> js_string" where
  "ascii s = map of_char s"

text \<open>The class \<^verbatim>\<open>\d\<close> of a regular expression: the code units of 0 to 9.\<close>

definition isDigit :: "16 word \<Rightarrow> bool" where
  "isDigit c = (0x30 \<le> c \<and> c \<le> 0x39)"

text \<open>
  \<^verbatim>\<open>/\d{3,4}/\<close> tried at the start of a string: the quantifier is greedy, so the match
  is the longest run of digits among the first four code units, and there is none when
  that run has fewer than three.
\<close>

definition matchAt :: "js_string \<Rightarrow> js_string option" where
  "matchAt s = (let run = takeWhile isDigit (take 4 s) in if 3 \<le> length run then Some run else None)"

text \<open>
  The matches of \<^verbatim>\<open>/\d{3,4}/g\<close> from left to right: after a match the search goes on
  behind it, after a failure one code unit further.
\<close>

function matchAll :: "js_string \<Rightarrow> js_string list" where
  "matchAll [] = []"
| "matchAll (c # cs) =
     (case matchAt (c # cs) of
        Some m \<Rightarrow> m # matchAll (drop (length m) (c # cs))
      | None \<Rightarrow> matchAll cs)"
  by pat_completeness auto
termination
  by (relation "measure length") (auto simp: matchAt_def Let_def split: if_splits)

text \<open>\<^verbatim>\<open>text.match(/\d{3,4}/g)\<close>: the array of all matches, or \<^verbatim>\<open>null\<close> when there is none.\<close>

definition match_digits :: "js_string \<Rightarrow> js_string list option" where
  "match_digits s = (case matchAll s of [] \<Rightarrow> None | m # ms \<Rightarrow> Some (m # ms))"

text \<open>
  \<^verbatim>\<open>parseInt(string)\<close> with no radix, after ECMAScript: leading white space is
  dropped, then a sign, then \<^verbatim>\<open>0x\<close> or \<^verbatim>\<open>0X\<close> (which selects radix 16); the digits of
  the radix up to the first other code unit are read; none gives NaN, otherwise the
  result is the double nearest to the signed integer read (ECMAScript lets an engine
  replace the decimal digits after the twentieth by zeros; the difference shows only
  beyond 53 bits).
\<close>

definition isWhiteSpace :: "16 word \<Rightarrow> bool" where
  "isWhiteSpace c =
     (c = 0x9 \<or> c = 0xA \<or> c = 0xB \<or> c = 0xC \<or> c = 0xD \<or> c = 0x20 \<or> c = 0xA0 \<or> c = 0x1680
      \<or> (0x2000 \<le> c \<and> c \<le> 0x200A) \<or> c = 0x2028 \<or> c = 0x2029 \<or> c = 0x202F \<or> c = 0x205F
      \<or> c = 0x3000 \<or> c = 0xFEFF)"

definition digitValue :: "16 word \<Rightarrow> nat option" where
  "digitValue c =
     (if 0x30 \<le> c \<and> c \<le> 0x39 then Some (unat c - 0x30)
      else if 0x61 \<le> c \<and> c \<le> 0x7A then Some (unat c - 0x61 + 10)
      else if 0x41 \<le> c \<and> c \<le> 0x5A then Some (unat c - 0x41 + 10)
      else None)"

definition isRadixDigit :: "nat \<Rightarrow> 16 word \<Rightarrow> bool" where
  "isRadixDigit R c = (case digitValue c of None \<Rightarrow> False | Some v \<Rightarrow> v < R)"

definition digitNat :: "16 word \<Rightarrow> nat" where
  "digitNat c = (case digitValue c of None \<Rightarrow> 0 | Some v \<Rightarrow> v)"

definition mathInt :: "nat \<Rightarrow> js_string \<Rightarrow> nat" where
  "mathInt R Z = foldl (\<lambda>n c. n * R + digitNat c) 0 Z"

definition parseInt :: "js_string \<Rightarrow> jsnum" where
  "parseInt string =
     (let S = dropWhile isWhiteSpace string;
          negative = (case S of [] \<Rightarrow> False | c # cs \<Rightarrow> c = 0x2D);
          S1 = (case S of [] \<Rightarrow> [] | c # cs \<Rightarrow> if c = 0x2B \<or> c = 0x2D then cs else c # cs);
          hex = (case S1 of a # b # cs \<Rightarrow> a = 0x30 \<and> (b = 0x78 \<or> b = 0x58) | _ \<Rightarrow> False);
          R = (if hex then 16 else 10);
          Z = takeWhile (isRadixDigit R) (if hex then drop 2 S1 else S1)
      in if Z = [] then NaN
         else fl (of_int ((if negative then - 1 else 1) * int (mathInt R Z))))"

section \<open>performOCR\<close>

text \<open>
  The argument is what the two collaborators (the image manipulator and the recogniser)
  deliver: the recognised text, or \<open>None\<close> when one of them throws, which the
  \<^verbatim>\<open>catch\<close> of \<^verbatim>\<open>performOCR\<close> turns into \<^verbatim>\<open>null\<close>.
\<close>

definition performOCR :: "js_string option \<Rightarrow> Stats option" where
  "performOCR recognized =
     (case recognized of
        None \<Rightarrow> None
      | Some text \<Rightarrow>
          (case match_digits text of
             None \<Rightarrow> None
           | Some numbers \<Rightarrow>
               if length numbers < 10 then None
               else Some
                 \<lparr>speed = \<lparr>current = parseInt (numbers ! 0), max' = parseInt (numbers ! 1)\<rparr>,
                  stamina = \<lparr>current = parseInt (numbers ! 2), max' = parseInt (numbers ! 3)\<rparr>,
                  power' = \<lparr>current = parseInt (numbers ! 4), max' = parseInt (numbers ! 5)\<rparr>,
                  guts = \<lparr>current = parseInt (numbers ! 6), max' = parseInt (numbers ! 7)\<rparr>,
                  wisdom = \<lparr>current = parseInt (numbers ! 8), max' = parseInt (numbers ! 9)\<rparr>\<rparr>))"

section \<open>The state of App and its handlers\<close>

text \<open>
  The state variables of \<^verbatim>\<open>App\<close> that the handlers below read or write, and the
  alerts shown so far. Each handler is a function from the state before the event to the
  state after it; what the awaited collaborators deliver is an argument.

  \<^verbatim>\<open>captureAndAnalyze\<close> awaits the capture and then the recognition, and other handlers
  can run meanwhile (only the test button is disabled). What it writes before its last
  await (\<^verbatim>\<open>loading\<close>, \<^verbatim>\<open>capturedImage\<close>) no other handler reads or writes, and what it
  writes afterwards does not depend on the state it finds, so a capture acts on the
  state at the moment it completes, with the categories of the render that started it.
\<close>

datatype Alert = ReadFailed | CaptureFailed

record AppState =
  stats :: "Stats option"
  calculated :: "CalculatedResult option"
  distance :: Distance
  strategy :: Strategy
  capturedImage :: "js_string option"
  loading :: bool
  alerts :: "Alert list"

definition initialState :: AppState where
  "initialState =
     \<lparr>stats = None, calculated = None, distance = Middle, strategy = Nige,
      capturedImage = None, loading = False, alerts = []\<rparr>"

definition zeroStats :: Stats where
  "zeroStats =
     \<lparr>speed = \<lparr>current = fl 0, max' = fl 0\<rparr>,
      stamina = \<lparr>current = fl 0, max' = fl 0\<rparr>,
      power' = \<lparr>current = fl 0, max' = fl 0\<rparr>,
      guts = \<lparr>current = fl 0, max' = fl 0\<rparr>,
      wisdom = \<lparr>current = fl 0, max' = fl 0\<rparr>\<rparr>"

text \<open>
  \<^verbatim>\<open>captureAndAnalyze\<close> is a closure of one render of \<^verbatim>\<open>App\<close>: the \<^verbatim>\<open>distance\<close> and
  \<^verbatim>\<open>strategy\<close> it passes to \<^verbatim>\<open>calculateEvaluation\<close> are the values of that render,
  here the first two arguments. \<open>captured\<close> is the result of \<^verbatim>\<open>captureScreen\<close>
  (\<open>None\<close> when it throws) and \<open>recognized\<close> the text handed to \<open>performOCR\<close>.
\<close>

definition captureAndAnalyze ::
  "Distance \<Rightarrow> Strategy \<Rightarrow> js_string option \<Rightarrow> js_string option \<Rightarrow> AppState \<Rightarrow> AppState" where
  "captureAndAnalyze renderDistance renderStrategy captured recognized st =
     (case captured of
        None \<Rightarrow> st\<lparr>loading := False, alerts := alerts st @ [CaptureFailed]\<rparr>
      | Some uri \<Rightarrow>
          (case performOCR recognized of
             Some extractedStats \<Rightarrow>
               st\<lparr>capturedImage := Some uri,
                  stats := Some extractedStats,
                  calculated :=
                    Some (calculateEvaluation extractedStats renderDistance renderStrategy),
                  loading := False\<rparr>
           | None \<Rightarrow>
               st\<lparr>capturedImage := Some uri,
                  alerts := alerts st @ [ReadFailed],
                  stats := Some zeroStats,
                  loading := False\<rparr>))"

text \<open>
  The test button is rendered anew with every state, so its \<^verbatim>\<open>onPress\<close> runs the
  closure of the current render.
\<close>

definition pressTestCapture :: "js_string option \<Rightarrow> js_string option \<Rightarrow> AppState \<Rightarrow> AppState" where
  "pressTestCapture captured recognized st =
     captureAndAnalyze (distance st) (strategy st) captured recognized st"

text \<open>
  The listener of \<^verbatim>\<open>CAPTURE_SCREEN\<close> is registered once, by the effect of the first
  render (its dependency list is empty), and it keeps the closure of that render, in
  which \<^verbatim>\<open>distance\<close> is \<^verbatim>\<open>'middle'\<close> and \<^verbatim>\<open>strategy\<close> is \<^verbatim>\<open>'nige'\<close>.
\<close>

definition handleCaptureFromOverlay ::
  "js_string option \<Rightarrow> js_string option \<Rightarrow> AppState \<Rightarrow> AppState" where
  "handleCaptureFromOverlay captured recognized st =
     captureAndAnalyze (distance initialState) (strategy initialState) captured recognized st"

datatype StatKey = Speed | Stamina | Power | Guts | Wisdom

datatype Field = Current | Max

fun getStat :: "StatKey \<Rightarrow> 'a PerStat \<Rightarrow> 'a" where
  "getStat Speed s = speed s"
| "getStat Stamina s = stamina s"
| "getStat Power s = power' s"
| "getStat Guts s = guts s"
| "getStat Wisdom s = wisdom s"

fun setStat :: "StatKey \<Rightarrow> 'a \<Rightarrow> 'a PerStat \<Rightarrow> 'a PerStat" where
  "setStat Speed v s = s\<lparr>speed := v\<rparr>"
| "setStat Stamina v s = s\<lparr>stamina := v\<rparr>"
| "setStat Power v s = s\<lparr>power' := v\<rparr>"
| "setStat Guts v s = s\<lparr>guts := v\<rparr>"
| "setStat Wisdom v s = s\<lparr>wisdom := v\<rparr>"

fun setField :: "Field \<Rightarrow> jsnum \<Rightarrow> StatPair \<Rightarrow> StatPair" where
  "setField Current v p = p\<lparr>current := v\<rparr>"
| "setField Max v p = p\<lparr>max' := v\<rparr>"

definition handleStatChange :: "StatKey \<Rightarrow> Field \<Rightarrow> js_string \<Rightarrow> AppState \<Rightarrow> AppState" where
  "handleStatChange stat field value st =
     (case stats st of
        None \<Rightarrow> st
      | Some s \<Rightarrow>
          let newStats = setStat stat (setField field (or_zero (parseInt value)) (getStat stat s)) s
          in st\<lparr>stats := Some newStats,
                calculated := Some (calculateEvaluation newStats (distance st) (strategy st))\<rparr>)"

text \<open>The \<^verbatim>\<open>onPress\<close> handlers of the distance and the strategy buttons.\<close>

definition pressDistance :: "Distance \<Rightarrow> AppState \<Rightarrow> AppState" where
  "pressDistance key st =
     (case stats st of
        None \<Rightarrow> st\<lparr>distance := key\<rparr>
      | Some s \<Rightarrow>
          st\<lparr>distance := key, calculated := Some (calculateEvaluation s key (strategy st))\<rparr>)"

definition pressStrategy :: "Strategy \<Rightarrow> AppState \<Rightarrow> AppState" where
  "pressStrategy key st =
     (case stats st of
        None \<Rightarrow> st\<lparr>strategy := key\<rparr>
      | Some s \<Rightarrow>
          st\<lparr>strategy := key, calculated := Some (calculateEvaluation s (distance st) key)\<rparr>)"

text \<open>
  The events of a session and the state they lead to from the initial one.
  \<open>TestCapture\<close> is a capture from the test button that completes before any other
  event is handled. \<open>DelayedCapture d g\<close> is a capture from the test button that
  completes after other events were handled: \<open>d\<close> and \<open>g\<close> are the categories that
  were selected when the button was pressed. Every pair is admitted there, so the
  sessions of the model include all those of the program. A capture from the overlay
  always runs the closure of the first render, whenever it completes.
\<close>

datatype Event =
    TestCapture "js_string option" "js_string option"
  | DelayedCapture Distance Strategy "js_string option" "js_string option"
  | OverlayCapture "js_string option" "js_string option"
  | StatChange StatKey Field js_string
  | DistancePressed Distance
  | StrategyPressed Strategy

fun step :: "AppState \<Rightarrow> Event \<Rightarrow> AppState" where
  "step st (TestCapture captured recognized) = pressTestCapture captured recognized st"
| "step st (DelayedCapture d g captured recognized) =
     captureAndAnalyze d g captured recognized st"
| "step st (OverlayCapture captured recognized) = handleCaptureFromOverlay captured recognized st"
| "step st (StatChange stat field value) = handleStatChange stat field value st"
| "step st (DistancePressed key) = pressDistance key st"
| "step st (StrategyPressed key) = pressStrategy key st"

definition run :: "Event list \<Rightarrow> AppState" where
  "run events = foldl step initialState events"

section \<open>The formulations of the specification\<close>

text \<open>
  The evaluation as the specification words it: the five current values, the row of the
  distance and the row of the strategy (in the order speed, stamina, power, guts,
  wisdom), multiplied stat by stat; the total is the rounded sum of the five scores.
  Front-runner, pace-chaser, late-surger and closer are \<open>Nige\<close>, \<open>Senko\<close>, \<open>Sashi\<close>
  and \<open>Oikomi\<close>.
\<close>

fun spec_distance_row :: "Distance \<Rightarrow> rat list" where
  "spec_distance_row Short = [1, 5 / 10, 1, 5 / 10, 5 / 10]"
| "spec_distance_row Mile = [1, 7 / 10, 1, 7 / 10, 7 / 10]"
| "spec_distance_row Middle = [1, 1, 1, 1, 1]"
| "spec_distance_row Long = [8 / 10, 12 / 10, 8 / 10, 12 / 10, 12 / 10]"

fun spec_strategy_row :: "Strategy \<Rightarrow> rat list" where
  "spec_strategy_row Nige = [12 / 10, 11 / 10, 1, 1, 9 / 10]"
| "spec_strategy_row Senko = [11 / 10, 1, 11 / 10, 1, 1]"
| "spec_strategy_row Sashi = [1, 1, 11 / 10, 11 / 10, 1]"
| "spec_strategy_row Oikomi = [9 / 10, 1, 12 / 10, 12 / 10, 11 / 10]"

definition currents :: "Stats \<Rightarrow> jsnum list" where
  "currents s =
     [current (speed s), current (stamina s), current (power' s), current (guts s),
      current (wisdom s)]"

definition spec_scores :: "Stats \<Rightarrow> Distance \<Rightarrow> Strategy \<Rightarrow> jsnum list" where
  "spec_scores s d g =
     map (\<lambda>(c, dc, sc). js_mul (js_mul c (fl dc)) (fl sc))
       (zip (currents s) (zip (spec_distance_row d) (spec_strategy_row g)))"

fun sum_scores :: "jsnum list \<Rightarrow> jsnum" where
  "sum_scores [] = fl 0"
| "sum_scores (x # xs) = foldl js_add x xs"

text \<open>The five per-stat scores of a result, unrounded, in the same order.\<close>

definition scores :: "CalculatedResult \<Rightarrow> jsnum list" where
  "scores r =
     [speed (individual r), stamina (individual r), power' (individual r), guts (individual r),
      wisdom (individual r)]"

text \<open>A StatBlock whose five stats all have the current value \<open>c\<close> and the maximum \<open>m\<close>.\<close>

definition uniformStats :: "jsnum \<Rightarrow> jsnum \<Rightarrow> Stats" where
  "uniformStats c m =
     \<lparr>speed = \<lparr>current = c, max' = m\<rparr>,
      stamina = \<lparr>current = c, max' = m\<rparr>,
      power' = \<lparr>current = c, max' = m\<rparr>,
      guts = \<lparr>current = c, max' = m\<rparr>,
      wisdom = \<lparr>current = c, max' = m\<rparr>\<rparr>"

text \<open>
  The maximal runs of digits of a string, from left to right, and the tokens as the
  specification describes them: the maximal runs whose length is 3 or 4.
\<close>

function digitRuns :: "js_string \<Rightarrow> js_string list" where
  "digitRuns [] = []"
| "digitRuns (c # cs) =
     (if isDigit c then takeWhile isDigit (c # cs) # digitRuns (dropWhile isDigit cs)
      else digitRuns cs)"
  by pat_completeness auto
termination
  by (relation "measure length") (auto simp: length_dropWhile_le less_Suc_eq_le)

definition spec_tokens :: "js_string \<Rightarrow> js_string list" where
  "spec_tokens s = filter (\<lambda>r. length r = 3 \<or> length r = 4) (digitRuns s)"

text \<open>
  What the pattern takes from one run of digits: pieces of four digits from the left, and
  the rest when it has three digits; a rest of one or two digits is dropped.
\<close>

function chunks :: "js_string \<Rightarrow> js_string list" where
  "chunks r =
     (if 4 \<le> length r then take 4 r # chunks (drop 4 r)
      else if length r = 3 then [r]
      else [])"
  by pat_completeness auto
termination
  by (relation "measure length") auto

text \<open>Predicates on the values of a StatBlock and on the state.\<close>

fun isInteger :: "jsnum \<Rightarrow> bool" where
  "isInteger (Fin q) = (of_int \<lfloor>q\<rfloor> = q)"
| "isInteger x = False"

fun nonnegInteger :: "jsnum \<Rightarrow> bool" where
  "nonnegInteger (Fin q) = (0 \<le> q \<and> of_int \<lfloor>q\<rfloor> = q)"
| "nonnegInteger x = False"

definition integerOrInfinite :: "jsnum \<Rightarrow> bool" where
  "integerOrInfinite x = (x = PInf \<or> x = NInf \<or> isInteger x)"

definition everyValue :: "(jsnum \<Rightarrow> bool) \<Rightarrow> Stats \<Rightarrow> bool" where
  "everyValue P s =
     (P (current (speed s)) \<and> P (max' (speed s))
      \<and> P (current (stamina s)) \<and> P (max' (stamina s))
      \<and> P (current (power' s)) \<and> P (max' (power' s))
      \<and> P (current (guts s)) \<and> P (max' (guts s))
      \<and> P (current (wisdom s)) \<and> P (max' (wisdom s)))"

definition statsSatisfy :: "(Stats \<Rightarrow> bool) \<Rightarrow> AppState \<Rightarrow> bool" where
  "statsSatisfy P st = (case stats st of None \<Rightarrow> True | Some s \<Rightarrow> P s)"

text \<open>
  The stored result is the projection of the state: the evaluation of the current
  StatBlock with the current categories.
\<close>

definition isProjection :: "AppState \<Rightarrow> bool" where
  "isProjection st =
     (case stats st of
        None \<Rightarrow> True
      | Some s \<Rightarrow> calculated st = Some (calculateEvaluation s (distance st) (strategy st)))"

text \<open>
  The events after which the handler has recomputed the result with the current
  categories or left the StatBlock alone: all but a capture whose read fails, a capture
  that completes after other events, and a capture from the overlay.
\<close>

definition recomputes :: "Event \<Rightarrow> bool" where
  "recomputes e =
     (case e of
        TestCapture captured recognized \<Rightarrow> captured = None \<or> performOCR recognized \<noteq> None
      | DelayedCapture d g captured recognized \<Rightarrow> captured = None
      | OverlayCapture captured recognized \<Rightarrow> captured = None
      | StatChange stat field value \<Rightarrow> True
      | DistancePressed key \<Rightarrow> True
      | StrategyPressed key \<Rightarrow> True)"

section \<open>Integers are stored exactly up to 53 bits\<close>

lemma roundHalfEven_of_int: "roundHalfEven (of_int j) = j"
  by (simp add: roundHalfEven_def)

lemma ilog2_of_int: "1 \<le> n \<Longrightarrow> ilog2 (of_int n) = bitlen n - 1"
  by (simp add: ilog2_def)

lemma bitlen_ge_one: "1 \<le> n \<Longrightarrow> 1 \<le> bitlen n"
  using bitlen_nonneg [of n] bitlen_eq_zero_iff [of n] by linarith

lemma bitlen_le_53:
  assumes "1 \<le> n" "n < 2 ^ 53"
  shows "bitlen n \<le> 53"
proof (rule ccontr)
  assume "\<not> bitlen n \<le> 53"
  then have "53 \<le> nat (bitlen n - 1)" by simp
  then have "(2::int) ^ 53 \<le> 2 ^ nat (bitlen n - 1)"
    by (intro power_increasing) simp_all
  also have "\<dots> \<le> n" using bitlen_bounds [of n] assms by simp
  finally show False using assms by simp
qed

lemma fl_small_exponent:
  assumes n: "1 \<le> n" and e: "bitlen n \<le> 53"
  shows "fl (of_int n) = Fin (of_int n)" and "fl (- of_int n) = Fin (- of_int n)"
proof -
  define e where "e = bitlen n - 1"
  define k where "k = nat (52 - e)"
  have e0: "0 \<le> e" "e \<le> 52" using bitlen_ge_one [OF n] assms by (simp_all add: e_def)
  have il: "ilog2 (of_int n) = e" using n by (simp add: ilog2_of_int e_def)
  have mx: "max e (- 1022) = e" using e0 by simp
  have u: "pow2 (e - 52) = 1 / 2 ^ k"
    using e0 by (cases "e = 52") (simp_all add: pow2_def k_def)
  have q: "rat_of_int n * 2 ^ k = of_int (n * 2 ^ k)" by simp
  have r: "roundHalfEven (rat_of_int n * 2 ^ k) = n * 2 ^ k"
    unfolding q by (rule roundHalfEven_of_int)
  have nz: "rat_of_int n \<noteq> 0" "0 < rat_of_int n" using n by simp_all
  have ab: "\<bar>rat_of_int n\<bar> = of_int n" using n by simp
  show "fl (of_int n) = Fin (of_int n)"
    using e0 nz by (simp add: fl_def Let_def ab il mx u r)
  have ab': "\<bar>- rat_of_int n\<bar> = of_int n" using n by simp
  show "fl (- of_int n) = Fin (- of_int n)"
    using e0 nz by (simp add: fl_def Let_def ab' il mx u r)
qed

lemma fl_of_int_exact:
  assumes "\<bar>z\<bar> < 2 ^ 53"
  shows "fl (of_int z) = Fin (of_int z)"
proof -
  consider "z = 0" | "1 \<le> z" | "z \<le> - 1" by linarith
  then show ?thesis
  proof cases
    case 1
    then show ?thesis by (simp add: fl_def)
  next
    case 2
    then have "bitlen z \<le> 53" using assms by (intro bitlen_le_53) simp_all
    then show ?thesis using fl_small_exponent(1) [of z] 2 by simp
  next
    case 3
    then have "1 \<le> - z" "- z < 2 ^ 53" using assms by simp_all
    then have "bitlen (- z) \<le> 53" by (intro bitlen_le_53)
    then show ?thesis using fl_small_exponent(2) [of "- z"] \<open>1 \<le> - z\<close> by simp
  qed
qed

lemma fl_numeral_exact:
  "numeral n < (2::int) ^ 53 \<Longrightarrow> fl (numeral n) = Fin (numeral n)"
  using fl_of_int_exact [of "numeral n"] by simp

lemma fl_one: "fl 1 = Fin 1"
  using fl_of_int_exact [of 1] by simp

lemma fl_zero: "fl 0 = Fin 0"
  by (simp add: fl_def)

text \<open>Beyond 53 bits an integer is rounded to an integer, or to an infinity.\<close>

lemma fl_large_exponent:
  assumes n: "1 \<le> n" and e: "53 < bitlen n"
  shows "\<exists>m. 0 \<le> m \<and> (fl (of_int n) = PInf \<or> fl (of_int n) = Fin (of_int m))
             \<and> (fl (- of_int n) = NInf \<or> fl (- of_int n) = Fin (- of_int m))"
proof -
  define e where "e = bitlen n - 1"
  define k where "k = nat (e - 52)"
  have e0: "52 < e" using assms by (simp add: e_def)
  have il: "ilog2 (of_int n) = e" using n by (simp add: ilog2_of_int e_def)
  have mx: "max e (- 1022) = e" using e0 by simp
  have u: "pow2 (e - 52) = of_int (2 ^ k)"
    using e0 by (simp add: pow2_def k_def)
  define m where "m = roundHalfEven (rat_of_int n / of_int (2 ^ k))"
  have "0 \<le> rat_of_int n / of_int (2 ^ k)" using n by simp
  then have "0 \<le> \<lfloor>rat_of_int n / of_int (2 ^ k)\<rfloor>" by simp
  then have m0: "0 \<le> m" unfolding m_def roundHalfEven_def Let_def by (simp del: of_int_power)
  have nz: "rat_of_int n \<noteq> 0" "0 < rat_of_int n" using n by simp_all
  have ab: "\<bar>rat_of_int n\<bar> = of_int n" "\<bar>- rat_of_int n\<bar> = of_int n" using n by simp_all
  have "fl (of_int n) = PInf \<or> fl (of_int n) = Fin (of_int (m * 2 ^ k))"
    using nz by (simp add: fl_def Let_def ab il mx u m_def del: of_int_power)
  moreover have "fl (- of_int n) = NInf \<or> fl (- of_int n) = Fin (- of_int (m * 2 ^ k))"
    using nz by (simp add: fl_def Let_def ab il mx u m_def del: of_int_power)
  moreover have "0 \<le> m * 2 ^ k" using m0 by simp
  ultimately show ?thesis by blast
qed

lemma nonneg_integerOrInfinite: "nonnegInteger x \<Longrightarrow> integerOrInfinite x"
  by (cases x) (simp_all add: integerOrInfinite_def)

lemma fl_of_int_integerOrInfinite: "integerOrInfinite (fl (of_int z))"
proof -
  consider "z = 0" | "1 \<le> z" | "z \<le> - 1" by linarith
  then show ?thesis
  proof cases
    case 1
    then show ?thesis by (simp add: fl_def integerOrInfinite_def)
  next
    case 2
    show ?thesis
    proof (cases "bitlen z \<le> 53")
      case True
      then show ?thesis using fl_small_exponent(1) [OF 2] by (simp add: integerOrInfinite_def)
    next
      case False
      then show ?thesis using fl_large_exponent [OF 2] by (auto simp: integerOrInfinite_def)
    qed
  next
    case 3
    then have n: "1 \<le> - z" by simp
    have z: "rat_of_int z = - rat_of_int (- z)" by simp
    show ?thesis
    proof (cases "bitlen (- z) \<le> 53")
      case True
      then show ?thesis using fl_small_exponent(2) [OF n]
        unfolding z by (simp add: integerOrInfinite_def del: of_int_minus)
    next
      case False
      then show ?thesis using fl_large_exponent [OF n]
        unfolding z by (auto simp: integerOrInfinite_def simp del: of_int_minus)
    qed
  qed
qed

section \<open>The rounding function is the IEEE one\<close>

lemma pow2_pos: "0 < pow2 k"
  by (simp add: pow2_def)

lemma ilog2_bounds:
  assumes "0 < a"
  shows "pow2 (ilog2 a) \<le> a \<and> a < pow2 (ilog2 a + 1)"
proof (cases "1 \<le> a")
  case True
  define n where "n = \<lfloor>a\<rfloor>"
  have n1: "1 \<le> n" using True by (simp add: n_def le_floor_iff)
  have b: "2 ^ nat (bitlen n - 1) \<le> n" "n < 2 ^ nat (bitlen n)"
    using bitlen_bounds [of n] n1 by simp_all
  have k: "1 \<le> bitlen n" using n1 by (rule bitlen_ge_one)
  have il: "ilog2 a = bitlen n - 1" using True by (simp add: ilog2_def n_def)
  have "rat_of_int (2 ^ nat (bitlen n - 1)) \<le> of_int n" using b(1) by (simp only: of_int_le_iff)
  also have "\<dots> \<le> a" by (simp add: n_def)
  finally have lo: "pow2 (ilog2 a) \<le> a" using k by (simp add: il pow2_def)
  have "a < of_int (n + 1)" unfolding n_def by linarith
  also have "\<dots> \<le> rat_of_int (2 ^ nat (bitlen n))" using b(2) by (simp only: of_int_le_iff)
  finally have hi: "a < pow2 (ilog2 a + 1)" using k by (simp add: il pow2_def)
  show ?thesis using lo hi by simp
next
  case False
  define c where "c = \<lceil>1 / a\<rceil>"
  define k where "k = bitlen (c - 1)"
  have inv: "1 < 1 / a" using assms False by simp
  have c2: "2 \<le> c" using inv unfolding c_def by (simp add: le_ceiling_iff)
  have c1: "1 \<le> c - 1" using c2 by simp
  have b: "2 ^ nat (k - 1) \<le> c - 1" "c - 1 < 2 ^ nat k"
    using bitlen_bounds [of "c - 1"] c1 by (simp_all add: k_def)
  have k1: "1 \<le> k" unfolding k_def using c1 by (rule bitlen_ge_one)
  have il: "ilog2 a = - k" using False by (simp add: ilog2_def c_def k_def)
  have "1 / a \<le> of_int c" by (simp add: c_def)
  also have "\<dots> \<le> rat_of_int (2 ^ nat k)" using b(2) by (simp only: of_int_le_iff)
  finally have "1 / a \<le> 2 ^ nat k" by simp
  then have "1 \<le> 2 ^ nat k * a" using assms by (simp add: field_simps)
  then have lo: "pow2 (ilog2 a) \<le> a" using k1 by (simp add: il pow2_def field_simps)
  have "rat_of_int (2 ^ nat (k - 1)) \<le> of_int (c - 1)" using b(1) by (simp only: of_int_le_iff)
  also have "\<dots> < 1 / a" unfolding c_def by linarith
  finally have "2 ^ nat (k - 1) < 1 / a" by simp
  then have h: "2 ^ nat (k - 1) * a < 1" using assms by (simp add: field_simps)
  have p: "pow2 (ilog2 a + 1) = 1 / 2 ^ nat (k - 1)"
    using k1 by (cases "k = 1") (simp_all add: il pow2_def)
  have "a < 1 / 2 ^ nat (k - 1)" using h by (simp add: field_simps)
  then have hi: "a < pow2 (ilog2 a + 1)" by (simp only: p)
  show ?thesis using lo hi by simp
qed

lemma roundHalfEven_nearest: "\<bar>of_int (roundHalfEven x) - x\<bar> \<le> 1 / 2"
proof -
  have "of_int \<lfloor>x\<rfloor> \<le> x" "x < of_int \<lfloor>x\<rfloor> + 1" by linarith+
  then show ?thesis by (auto simp: roundHalfEven_def Let_def)
qed

text \<open>A finite result is within half a unit in the last place of the exact value.\<close>

lemma fl_nearest:
  assumes "fl q = Fin r"
  shows "\<bar>r - q\<bar> \<le> pow2 (max (ilog2 \<bar>q\<bar>) (- 1022) - 52) / 2"
proof (cases "q = 0")
  case True
  with assms show ?thesis using pow2_pos [of "max (ilog2 \<bar>q\<bar>) (- 1022) - 52"] by (simp add: fl_def)
next
  case False
  define u where "u = pow2 (max (ilog2 \<bar>q\<bar>) (- 1022) - 52)"
  define m where "m = roundHalfEven (\<bar>q\<bar> / u)"
  have u: "0 < u" unfolding u_def by (rule pow2_pos)
  have r: "r = (if 0 < q then of_int m * u else - (of_int m * u))"
    using assms False by (simp add: fl_def Let_def u_def m_def split: if_splits)
  have "\<bar>of_int m - \<bar>q\<bar> / u\<bar> \<le> 1 / 2" unfolding m_def by (rule roundHalfEven_nearest)
  then have "\<bar>of_int m - \<bar>q\<bar> / u\<bar> * u \<le> 1 / 2 * u" using u by (intro mult_right_mono) simp_all
  moreover have "\<bar>of_int m - \<bar>q\<bar> / u\<bar> * u = \<bar>of_int m * u - \<bar>q\<bar>\<bar>"
  proof -
    have "\<bar>of_int m - \<bar>q\<bar> / u\<bar> * u = \<bar>(of_int m - \<bar>q\<bar> / u) * u\<bar>"
      using u by (simp add: abs_mult)
    also have "(of_int m - \<bar>q\<bar> / u) * u = of_int m * u - \<bar>q\<bar>"
      using u by (simp add: left_diff_distrib)
    finally show ?thesis .
  qed
  ultimately have "\<bar>of_int m * u - \<bar>q\<bar>\<bar> \<le> u / 2" by simp
  then show ?thesis using False unfolding r u_def [symmetric] by (auto simp: abs_if split: if_splits)
qed

lemma pow2_power_int: "pow2 k = power_int 2 k"
  by (simp add: pow2_def power_int_def field_simps)

lemma pow2_add: "pow2 (i + j) = pow2 i * pow2 j"
  by (simp add: pow2_power_int power_int_add)

lemma pow2_mono: "i \<le> j \<Longrightarrow> pow2 i \<le> pow2 j"
  by (simp add: pow2_power_int power_int_increasing)

text \<open>The rounded magnitude has at most 53 bits, or is the next power of two.\<close>

lemma fl_significand:
  assumes "q \<noteq> 0"
  shows "roundHalfEven (\<bar>q\<bar> / pow2 (max (ilog2 \<bar>q\<bar>) (- 1022) - 52)) \<le> 2 ^ 53"
proof -
  define e where "e = max (ilog2 \<bar>q\<bar>) (- 1022)"
  define x where "x = \<bar>q\<bar> / pow2 (e - 52)"
  have "\<bar>q\<bar> < pow2 (ilog2 \<bar>q\<bar> + 1)" using ilog2_bounds [of "\<bar>q\<bar>"] assms by simp
  also have "\<dots> \<le> pow2 (e + 1)" by (rule pow2_mono) (simp add: e_def)
  also have "\<dots> = 2 ^ 53 * pow2 (e - 52)"
  proof -
    have "pow2 53 = 2 ^ 53" by (simp add: pow2_def)
    moreover have "pow2 (e + 1) = pow2 53 * pow2 (e - 52)"
      using pow2_add [of 53 "e - 52"] by (simp add: algebra_simps)
    ultimately show ?thesis by (simp only:)
  qed
  finally have "x < 2 ^ 53" using pow2_pos [of "e - 52"] by (simp add: x_def field_simps)
  then have "\<lfloor>x\<rfloor> < 2 ^ 53" by (simp add: floor_less_iff)
  then have "roundHalfEven x \<le> 2 ^ 53" by (simp add: roundHalfEven_def Let_def)
  then show ?thesis by (simp add: x_def e_def)
qed

text \<open>
  Four well-known results: \<^verbatim>\<open>0.1 + 0.2\<close> is \<^verbatim>\<open>0.30000000000000004\<close> and not the
  double of \<^verbatim>\<open>0.3\<close>; \<^verbatim>\<open>3 * 0.7\<close> is \<^verbatim>\<open>2.0999999999999996\<close>; \<^verbatim>\<open>5 * 0.7\<close> is
  \<^verbatim>\<open>3.5\<close>.
\<close>

lemma known_double_results:
  "js_add (fl (1 / 10)) (fl (2 / 10)) = Fin (5404319552844596 / 18014398509481984)
   \<and> fl (3 / 10) = Fin (5404319552844595 / 18014398509481984)
   \<and> js_mul (Fin 3) (fl (7 / 10)) = Fin (4728779608739020 / 2251799813685248)
   \<and> js_mul (Fin 5) (fl (7 / 10)) = Fin (7 / 2)"
  by code_simp

section \<open>Rounding an integer changes nothing\<close>

lemma Math_round_of_int: "Math_round (Fin (of_int z)) = Fin (of_int z)"
proof -
  have "\<lfloor>rat_of_int z + 1 / 2\<rfloor> = z" by (rule floor_unique) simp_all
  then show ?thesis by simp
qed

lemma Math_round_numeral: "Math_round (Fin (numeral n)) = Fin (numeral n)"
  using Math_round_of_int [of "numeral n"] by simp

section \<open>The evaluation reads the current values only\<close>

lemma calculateEvaluation_current:
  assumes "current (speed s) = current (speed s')"
    and "current (stamina s) = current (stamina s')"
    and "current (power' s) = current (power' s')"
    and "current (guts s) = current (guts s')"
    and "current (wisdom s) = current (wisdom s')"
  shows "calculateEvaluation s d g = calculateEvaluation s' d g"
  using assms by (simp add: calculateEvaluation_def)

lemma scores_are_products: "scores (calculateEvaluation s d g) = spec_scores s d g"
  by (cases d; cases g)
    (simp_all add: calculateEvaluation_def Let_def scores_def spec_scores_def currents_def)

lemma total_is_rounded_sum:
  "total' (calculateEvaluation s d g) = Math_round (sum_scores (scores (calculateEvaluation s d g)))"
  by (simp add: calculateEvaluation_def Let_def scores_def)

section \<open>Evaluations of concrete StatBlocks\<close>

lemma evaluation_of_1000_middle_nige:
  "calculateEvaluation (uniformStats (Fin 1000) (Fin 1000)) Middle Nige =
     \<lparr>individual =
        \<lparr>speed = Fin 1200, stamina = Fin 1100, power' = Fin 1000, guts = Fin 1000,
         wisdom = Fin 900\<rparr>,
      total' = Fin 5200, rating = ''A+''\<rparr>"
  by code_simp

lemma evaluation_of_1000_long_oikomi:
  "calculateEvaluation (uniformStats (Fin 1000) (Fin 1000)) Long Oikomi =
     \<lparr>individual =
        \<lparr>speed = Fin 720, stamina = Fin 1200, power' = Fin 960, guts = Fin 1440,
         wisdom = Fin 1320\<rparr>,
      total' = Fin 5640, rating = ''S''\<rparr>"
  by code_simp

lemma evaluation_of_1_mile_nige:
  "calculateEvaluation (uniformStats (Fin 1) (Fin 1)) Mile Nige =
     \<lparr>individual =
        \<lparr>speed = Fin (5404319552844595 / 4503599627370496),
         stamina = Fin (1733885856537641 / 2251799813685248),
         power' = Fin 1,
         guts = Fin (3152519739159347 / 4503599627370496),
         wisdom = Fin (5674535530486825 / 9007199254740992)\<rparr>,
      total' = Fin 4, rating = ''C''\<rparr>"
  by code_simp

lemma rounded_scores_of_1_mile_nige:
  "map Math_round
     [Fin (5404319552844595 / 4503599627370496), Fin (1733885856537641 / 2251799813685248),
      Fin 1, Fin (3152519739159347 / 4503599627370496),
      Fin (5674535530486825 / 9007199254740992)]
   = [Fin 1, Fin 1, Fin 1, Fin 1, Fin 1]"
  by code_simp

lemma sum_of_scores_of_1_mile_nige:
  "sum_scores
     [Fin (5404319552844595 / 4503599627370496), Fin (1733885856537641 / 2251799813685248),
      Fin 1, Fin (3152519739159347 / 4503599627370496),
      Fin (5674535530486825 / 9007199254740992)]
   = Fin (4841369599423283 / 1125899906842624)"
  by code_simp

lemma sum_of_five_ones: "sum_scores [Fin 1, Fin 1, Fin 1, Fin 1, Fin 1] = Fin 5"
  by (simp add: fl_numeral_exact)

lemma evaluation_of_zero_middle_nige:
  "calculateEvaluation zeroStats Middle Nige =
     \<lparr>individual =
        \<lparr>speed = Fin 0, stamina = Fin 0, power' = Fin 0, guts = Fin 0, wisdom = Fin 0\<rparr>,
      total' = Fin 0, rating = ''C''\<rparr>"
  by code_simp

section \<open>What the digit pattern matches\<close>

declare chunks.simps [simp del]

lemma matchAt_None: "\<not> isDigit c \<Longrightarrow> matchAt (c # cs) = None"
  by (simp add: matchAt_def)

lemma matchAt_Some:
  assumes "matchAt s = Some m"
  shows "(length m = 3 \<or> length m = 4) \<and> list_all isDigit m \<and> m = take (length m) s"
proof -
  let ?run = "takeWhile isDigit (take 4 s)"
  from assms have m: "m = ?run" and len: "3 \<le> length ?run"
    by (auto simp: matchAt_def Let_def split: if_splits)
  have "length ?run \<le> length (take 4 s)" by (rule length_takeWhile_le)
  then have "length ?run \<le> 4" by simp
  moreover have "list_all isDigit ?run"
    by (auto simp: list_all_iff dest: set_takeWhileD)
  moreover have "?run = take (length ?run) s"
  proof -
    have "?run = take (length ?run) (take 4 s)"
      by (metis takeWhile_eq_take)
    also have "\<dots> = take (length ?run) s" using \<open>length ?run \<le> 4\<close> by (simp add: min_def)
    finally show ?thesis .
  qed
  ultimately show ?thesis using m len by auto
qed

lemma matchAll_tokens:
  "m \<in> set (matchAll s) \<Longrightarrow> (length m = 3 \<or> length m = 4) \<and> list_all isDigit m"
proof (induction s rule: matchAll.induct)
  case 1
  then show ?case by simp
next
  case (2 c cs)
  show ?case
  proof (cases "matchAt (c # cs)")
    case None
    with 2 show ?thesis by simp
  next
    case (Some a)
    with 2 matchAt_Some [OF Some] show ?thesis by auto
  qed
qed

lemma matchAll_Some:
  "matchAt s = Some m \<Longrightarrow> matchAll s = m # matchAll (drop (length m) s)"
  by (cases s) (simp_all add: matchAt_def)

lemma matchAll_None: "matchAt (c # cs) = None \<Longrightarrow> matchAll (c # cs) = matchAll cs"
  by simp

text \<open>A run of digits followed by something that does not begin with a digit.\<close>

lemma matchAll_run:
  assumes "list_all isDigit r" and "rest = [] \<or> \<not> isDigit (hd rest)"
  shows "matchAll (r @ rest) = chunks r @ matchAll rest"
  using assms
proof (induction r rule: length_induct)
  case (1 r)
  have run_rest: "takeWhile isDigit (take n rest) = []" for n
    using "1.prems"(2) by (cases rest; cases n) auto
  consider "4 \<le> length r" | "length r = 3" | "length r < 3" "r \<noteq> []" | "r = []" by fastforce
  then show ?case
  proof cases
    case 1
    have d4: "list_all isDigit (take 4 r)" "list_all isDigit (drop 4 r)"
      using "1.prems"(1) by (auto simp: list_all_iff dest: in_set_takeD in_set_dropD)
    have t4: "take 4 (r @ rest) = take 4 r" using 1 by simp
    have w4: "takeWhile isDigit (take 4 r) = take 4 r"
      using d4(1) by (simp add: list_all_iff)
    have at: "matchAt (r @ rest) = Some (take 4 r)"
      unfolding matchAt_def Let_def t4 w4 using 1 by simp
    have "matchAll (r @ rest) = take 4 r # matchAll (drop 4 r @ rest)"
      using matchAll_Some [OF at] 1 by simp
    also have "matchAll (drop 4 r @ rest) = chunks (drop 4 r) @ matchAll rest"
      using "1.IH" [rule_format, of "drop 4 r"] 1 d4(2) "1.prems"(2) by simp
    finally show ?thesis using 1 by (subst chunks.simps) simp
  next
    case 2
    have "takeWhile isDigit (take 4 (r @ rest)) = r"
      using 2 "1.prems"(1) run_rest [of 1] by (simp add: list_all_iff)
    then have at: "matchAt (r @ rest) = Some r"
      unfolding matchAt_def Let_def using 2 by simp
    have "matchAll (r @ rest) = r # matchAll rest"
      using matchAll_Some [OF at] by simp
    then show ?thesis using 2 by (subst chunks.simps) simp
  next
    case 3
    then obtain c cs where r: "r = c # cs" by (cases r) auto
    have "takeWhile isDigit (take 4 (r @ rest)) = r"
      using 3 "1.prems"(1) run_rest [of "4 - length r"] by (simp add: list_all_iff)
    then have at: "matchAt (r @ rest) = None"
      unfolding matchAt_def Let_def using 3 by simp
    have "matchAll (r @ rest) = matchAll (cs @ rest)"
      using matchAll_None [of c "cs @ rest"] at unfolding r by simp
    also have "\<dots> = chunks cs @ matchAll rest"
      using "1.IH" [rule_format, of cs] "1.prems" r by simp
    also have "chunks cs = []" using 3 r by (subst chunks.simps) simp
    finally show ?thesis using 3 by (subst chunks.simps) simp
  next
    case 4
    then show ?thesis by (subst chunks.simps) simp
  qed
qed

section \<open>parseInt on a short string of digits\<close>

lemma isDigit_unat: "isDigit c \<longleftrightarrow> 48 \<le> unat c \<and> unat c \<le> 57"
  by (simp add: isDigit_def word_le_nat_alt)

lemma digit_not_space: "isDigit c \<Longrightarrow> \<not> isWhiteSpace c"
  by (auto simp: isDigit_def isWhiteSpace_def word_le_nat_alt)

lemma digit_not_sign: "isDigit c \<Longrightarrow> c \<noteq> 0x2D \<and> c \<noteq> 0x2B \<and> c \<noteq> 0x78 \<and> c \<noteq> 0x58"
  by (auto simp: isDigit_def)

lemma digitValue_digit: "isDigit c \<Longrightarrow> digitValue c = Some (unat c - 48)"
  by (simp add: isDigit_def digitValue_def)

lemma digitNat_digit: "isDigit c \<Longrightarrow> digitNat c \<le> 9"
  using isDigit_unat [of c] by (auto simp: digitNat_def digitValue_digit)

lemma isRadixDigit_digit: "isDigit c \<Longrightarrow> isRadixDigit 10 c"
  using isDigit_unat [of c] by (auto simp: isRadixDigit_def digitValue_digit)

lemma mathInt_snoc: "mathInt R (ds @ [c]) = mathInt R ds * R + digitNat c"
  by (simp add: mathInt_def)

lemma mathInt_bound: "list_all isDigit ds \<Longrightarrow> mathInt 10 ds < 10 ^ length ds"
proof (induction ds rule: rev_induct)
  case Nil
  then show ?case by (simp add: mathInt_def)
next
  case (snoc c ds)
  then have "mathInt 10 ds < 10 ^ length ds" and "digitNat c \<le> 9"
    by (simp_all add: digitNat_digit)
  then show ?case by (simp add: mathInt_snoc)
qed

lemma parseInt_digits:
  assumes digits: "list_all isDigit ds" and ne: "ds \<noteq> []" and len: "length ds \<le> 15"
  shows "parseInt ds = Fin (of_nat (mathInt 10 ds))"
proof -
  from ne obtain c cs where ds: "ds = c # cs" by (cases ds) auto
  have c: "isDigit c" using digits ds by simp
  have S: "dropWhile isWhiteSpace ds = ds" using c ds by (simp add: digit_not_space)
  have hex: "(case ds of a # b # cs \<Rightarrow> a = 0x30 \<and> (b = 0x78 \<or> b = 0x58) | _ \<Rightarrow> False) = False"
    using digits ds by (cases cs) (auto dest: digit_not_sign)
  have Z: "takeWhile (isRadixDigit 10) ds = ds"
    using digits by (simp add: list_all_iff isRadixDigit_digit)
  have "mathInt 10 ds < 10 ^ length ds" using digits by (rule mathInt_bound)
  also have "(10::nat) ^ length ds \<le> 10 ^ 15" using len by (intro power_increasing) simp_all
  finally have "int (mathInt 10 ds) < 2 ^ 53" by simp
  then have exact: "fl (of_int (int (mathInt 10 ds))) = Fin (of_int (int (mathInt 10 ds)))"
    by (intro fl_of_int_exact) simp
  have "parseInt ds = fl (of_int (int (mathInt 10 ds)))"
    unfolding parseInt_def S Let_def using c ds hex Z ne digit_not_sign [OF c]
    by simp
  then show ?thesis using exact by simp
qed

lemma parseInt_match:
  assumes "i < length (matchAll s)"
  shows "parseInt (matchAll s ! i) = Fin (of_nat (mathInt 10 (matchAll s ! i)))"
proof -
  have "matchAll s ! i \<in> set (matchAll s)" using assms by simp
  then have "(length (matchAll s ! i) = 3 \<or> length (matchAll s ! i) = 4)
      \<and> list_all isDigit (matchAll s ! i)"
    by (rule matchAll_tokens)
  then show ?thesis by (intro parseInt_digits) auto
qed

text \<open>Whatever the string, parseInt gives NaN or the double of an integer.\<close>

lemma NaN_or_fl:
  "(if b then NaN else fl (of_int z)) = NaN
   \<or> (\<exists>z'. (if b then NaN else fl (of_int z)) = fl (of_int z'))"
  by auto

lemma parseInt_or_zero: "integerOrInfinite (or_zero (parseInt v))"
proof -
  have "parseInt v = NaN \<or> (\<exists>z. parseInt v = fl (of_int z))"
    unfolding parseInt_def Let_def by (rule NaN_or_fl)
  then show ?thesis
  proof
    assume "parseInt v = NaN"
    then show ?thesis by (simp add: or_zero_def integerOrInfinite_def)
  next
    assume "\<exists>z. parseInt v = fl (of_int z)"
    then obtain z where z: "parseInt v = fl (of_int z)" ..
    show ?thesis
      using fl_of_int_integerOrInfinite [of z] unfolding z
      by (simp add: or_zero_def integerOrInfinite_def)
  qed
qed

lemma parseInt_minus_5: "parseInt (ascii ''-5'') = Fin (- 5)"
  by code_simp


text \<open>A one followed by four hundred zeros is beyond the doubles: parseInt gives Infinity.\<close>

lemma mathInt_zeros: "mathInt R (ds @ replicate k 0x30) = mathInt R ds * R ^ k"
proof (induction k)
  case 0
  then show ?case by simp
next
  case (Suc k)
  have "ds @ replicate (Suc k) 0x30 = (ds @ replicate k 0x30) @ [0x30]"
    by (simp add: replicate_append_same)
  then have "mathInt R (ds @ replicate (Suc k) 0x30) =
      mathInt R (ds @ replicate k 0x30) * R + digitNat 0x30"
    by (simp only: mathInt_snoc)
  then show ?case using Suc by (simp add: digitNat_def digitValue_def)
qed

lemma fl_huge:
  assumes "2 ^ 1024 \<le> n"
  shows "fl (of_int n) = PInf"
proof -
  have n1: "1 \<le> n" using assms by (smt (verit) zero_less_power)
  have "1024 < bitlen n"
  proof (rule ccontr)
    assume "\<not> 1024 < bitlen n"
    then have "nat (bitlen n) \<le> 1024" by simp
    then have "(2::int) ^ nat (bitlen n) \<le> 2 ^ 1024" by (intro power_increasing) simp_all
    moreover have "n < 2 ^ nat (bitlen n)" using bitlen_bounds [of n] n1 by simp
    ultimately show False using assms by linarith
  qed
  then have e: "1023 < ilog2 (of_int n)" using n1 by (simp add: ilog2_of_int)
  have nz: "rat_of_int n \<noteq> 0" "0 < rat_of_int n" "\<bar>rat_of_int n\<bar> = of_int n" using n1 by simp_all
  show ?thesis using e nz by (simp add: fl_def Let_def)
qed

lemma parseInt_huge: "parseInt (0x31 # replicate 400 0x30) = PInf"
proof -
  let ?ds = "0x31 # replicate 400 (0x30 :: 16 word)"
  have digits: "list_all isDigit ?ds" by (simp add: list_all_iff isDigit_def)
  have Z: "takeWhile (isRadixDigit 10) ?ds = ?ds"
    using digits by (simp add: list_all_iff isRadixDigit_digit del: replicate.simps)
  have "mathInt 10 ([0x31] @ replicate 400 0x30) = mathInt 10 [0x31] * 10 ^ 400"
    by (rule mathInt_zeros)
  then have v: "mathInt 10 ?ds = 10 ^ 400"
    by (simp add: mathInt_def digitNat_def digitValue_def)
  have "(2::int) ^ 1024 \<le> 8 ^ 400" 
  proof -
    have "(8::int) ^ 400 = 2 ^ 1200" using power_mult [of "2::int" 3 400] by simp
    moreover have "(2::int) ^ 1024 \<le> 2 ^ 1200" by (intro power_increasing) simp_all
    ultimately show ?thesis by simp
  qed
  also have "(8::int) ^ 400 \<le> 10 ^ 400" by (intro power_mono) simp_all
  finally have big: "(2::int) ^ 1024 \<le> int (mathInt 10 ?ds)" unfolding v by simp
  have "parseInt ?ds = fl (of_int (int (mathInt 10 ?ds)))"
    unfolding parseInt_def Let_def
    using Z by (simp add: isWhiteSpace_def del: replicate.simps split: list.splits)
  then show ?thesis using fl_huge [OF big] by simp
qed

section \<open>What performOCR returns\<close>

lemma performOCR_None: "performOCR None = None"
  by (simp add: performOCR_def)

lemma performOCR_short:
  "length (matchAll s) < 10 \<Longrightarrow> performOCR (Some s) = None"
  by (cases "matchAll s") (simp_all add: performOCR_def match_digits_def)

lemma performOCR_long:
  assumes "10 \<le> length (matchAll s)"
  shows "performOCR (Some s) = Some
    \<lparr>speed = \<lparr>current = parseInt (matchAll s ! 0), max' = parseInt (matchAll s ! 1)\<rparr>,
     stamina = \<lparr>current = parseInt (matchAll s ! 2), max' = parseInt (matchAll s ! 3)\<rparr>,
     power' = \<lparr>current = parseInt (matchAll s ! 4), max' = parseInt (matchAll s ! 5)\<rparr>,
     guts = \<lparr>current = parseInt (matchAll s ! 6), max' = parseInt (matchAll s ! 7)\<rparr>,
     wisdom = \<lparr>current = parseInt (matchAll s ! 8), max' = parseInt (matchAll s ! 9)\<rparr>\<rparr>"
proof (cases "matchAll s")
  case Nil
  with assms show ?thesis by simp
next
  case (Cons m ms)
  have "match_digits s = Some (matchAll s)" by (simp add: match_digits_def Cons)
  then show ?thesis using assms by (simp add: performOCR_def)
qed

lemma performOCR_decimal:
  assumes len: "10 \<le> length (matchAll s)"
  shows "performOCR (Some s) = Some
          \<lparr>speed = \<lparr>current = Fin (of_nat (mathInt 10 (matchAll s ! 0))),
                    max' = Fin (of_nat (mathInt 10 (matchAll s ! 1)))\<rparr>,
           stamina = \<lparr>current = Fin (of_nat (mathInt 10 (matchAll s ! 2))),
                      max' = Fin (of_nat (mathInt 10 (matchAll s ! 3)))\<rparr>,
           power' = \<lparr>current = Fin (of_nat (mathInt 10 (matchAll s ! 4))),
                     max' = Fin (of_nat (mathInt 10 (matchAll s ! 5)))\<rparr>,
           guts = \<lparr>current = Fin (of_nat (mathInt 10 (matchAll s ! 6))),
                   max' = Fin (of_nat (mathInt 10 (matchAll s ! 7)))\<rparr>,
           wisdom = \<lparr>current = Fin (of_nat (mathInt 10 (matchAll s ! 8))),
                     max' = Fin (of_nat (mathInt 10 (matchAll s ! 9)))\<rparr>\<rparr>"
proof -
  have "\<And>i. i < 10 \<Longrightarrow> parseInt (matchAll s ! i) = Fin (of_nat (mathInt 10 (matchAll s ! i)))"
    using len by (intro parseInt_match) simp
  then show ?thesis by (simp add: performOCR_long [OF len])
qed

lemma performOCR_nonneg:
  assumes "performOCR r = Some s"
  shows "everyValue nonnegInteger s"
proof (cases r)
  case None
  with assms show ?thesis by (simp add: performOCR_def)
next
  case (Some t)
  have len: "10 \<le> length (matchAll t)"
    using assms performOCR_short [of t] unfolding Some by (cases "length (matchAll t) < 10") auto
  show ?thesis
    using assms unfolding Some performOCR_decimal [OF len]
    by (auto simp: everyValue_def)
qed

text \<open>Three recognised texts.\<close>

lemma matches_of_nine_numbers:
  "matchAll (ascii ''100 200 300 400 500 600 700 800 900'') =
     map ascii [''100'', ''200'', ''300'', ''400'', ''500'', ''600'', ''700'', ''800'', ''900'']"
  by code_simp

lemma matches_of_eleven_numbers:
  "matchAll (ascii ''100 / 200, 3004005 5 600 70 700 800-900 1000 1100 1200'') =
     map ascii [''100'', ''200'', ''3004'', ''005'', ''600'', ''700'', ''800'', ''900'', ''1000'',
       ''1100'', ''1200'']"
  by code_simp

lemma values_of_eleven_numbers:
  "map (mathInt 10)
     (map ascii [''100'', ''200'', ''3004'', ''005'', ''600'', ''700'', ''800'', ''900'', ''1000'',
       ''1100'', ''1200''])
   = [100, 200, 3004, 5, 600, 700, 800, 900, 1000, 1100, 1200]"
  by code_simp

lemma matches_of_ten_thousands:
  "matchAll (ascii ''1000 1000 1000 1000 1000 1000 1000 1000 1000 1000'') = replicate 10 (ascii ''1000'')"
  by code_simp

lemma value_of_thousand: "mathInt 10 (ascii ''1000'') = 1000"
  by code_simp

lemma performOCR_ten_thousands:
  "performOCR (Some (ascii ''1000 1000 1000 1000 1000 1000 1000 1000 1000 1000'')) =
     Some (uniformStats (Fin 1000) (Fin 1000))"
proof -
  have nth: "replicate 10 (ascii ''1000'') ! i = ascii ''1000''" if "i < 10" for i
    using that by simp
  show ?thesis
    using performOCR_decimal [of "ascii ''1000 1000 1000 1000 1000 1000 1000 1000 1000 1000''"]
    unfolding matches_of_ten_thousands
    by (simp add: nth value_of_thousand uniformStats_def)
qed

lemma performOCR_empty: "performOCR (Some (ascii '''')) = None"
  by (simp add: performOCR_short ascii_def)

section \<open>The handlers, state by state\<close>

lemma stats_handleStatChange:
  "stats (handleStatChange k f v st) =
     map_option (\<lambda>s. setStat k (setField f (or_zero (parseInt v)) (getStat k s)) s) (stats st)"
  by (simp add: handleStatChange_def Let_def split: option.splits)

lemma edit_can_store_infinity:
  "stats (handleStatChange Speed Current (0x31 # replicate 400 0x30) st) =
     map_option (\<lambda>s. s\<lparr>speed := (speed s)\<lparr>current := PInf\<rparr>\<rparr>) (stats st)"
  by (simp add: stats_handleStatChange parseInt_huge or_zero_def del: replicate.simps)

lemma capture_failed_read:
  "performOCR r = None \<Longrightarrow>
     captureAndAnalyze d g (Some u) r st =
       st\<lparr>capturedImage := Some u, alerts := alerts st @ [ReadFailed], stats := Some zeroStats,
          loading := False\<rparr>"
  by (simp add: captureAndAnalyze_def)

lemma capture_successful_read:
  "performOCR r = Some s \<Longrightarrow>
     captureAndAnalyze d g (Some u) r st =
       st\<lparr>capturedImage := Some u, stats := Some s,
          calculated := Some (calculateEvaluation s d g), loading := False\<rparr>"
  by (simp add: captureAndAnalyze_def)

lemma everyValue_edit:
  "everyValue P s \<Longrightarrow> P v \<Longrightarrow> everyValue P (setStat k (setField f v (getStat k s)) s)"
  by (cases k; cases f) (simp_all add: everyValue_def)

lemma everyValue_zeroStats: "everyValue nonnegInteger zeroStats"
  by (simp add: everyValue_def zeroStats_def fl_def)

lemma capture_integerOrInfinite:
  assumes "statsSatisfy (everyValue integerOrInfinite) st"
  shows "statsSatisfy (everyValue integerOrInfinite) (captureAndAnalyze d g captured recognized st)"
proof -
  have zero: "everyValue integerOrInfinite zeroStats"
    using everyValue_zeroStats by (simp add: everyValue_def nonneg_integerOrInfinite)
  have ocr: "everyValue integerOrInfinite s" if "performOCR recognized = Some s" for s
    using performOCR_nonneg [OF that] by (simp add: everyValue_def nonneg_integerOrInfinite)
  show ?thesis
    using assms zero ocr
    by (auto simp: captureAndAnalyze_def statsSatisfy_def split: option.splits)
qed

lemma step_integerOrInfinite:
  assumes "statsSatisfy (everyValue integerOrInfinite) st"
  shows "statsSatisfy (everyValue integerOrInfinite) (step st e)"
proof (cases e)
  case (TestCapture captured recognized)
  then show ?thesis using capture_integerOrInfinite [OF assms] by (simp add: pressTestCapture_def)
next
  case (DelayedCapture d g captured recognized)
  then show ?thesis using capture_integerOrInfinite [OF assms] by simp
next
  case (OverlayCapture captured recognized)
  then show ?thesis
    using capture_integerOrInfinite [OF assms] by (simp add: handleCaptureFromOverlay_def)
next
  case (StatChange k f v)
  show ?thesis
    using assms everyValue_edit [where P = integerOrInfinite, OF _ parseInt_or_zero]
    unfolding StatChange
    by (auto simp: handleStatChange_def statsSatisfy_def Let_def split: option.splits)
next
  case (DistancePressed key)
  with assms show ?thesis
    by (auto simp: pressDistance_def statsSatisfy_def split: option.splits)
next
  case (StrategyPressed key)
  with assms show ?thesis
    by (auto simp: pressStrategy_def statsSatisfy_def split: option.splits)
qed

lemma run_integerOrInfinite: "statsSatisfy (everyValue integerOrInfinite) (run events)"
proof (induction events rule: rev_induct)
  case Nil
  then show ?case by (simp add: run_def statsSatisfy_def initialState_def)
next
  case (snoc e events)
  then show ?case using step_integerOrInfinite [of "run events" e] by (simp add: run_def)
qed

text \<open>
  Every handler that recomputes leaves the stored result equal to the evaluation of the
  state it leaves; the branch of a failed read is the one that does not recompute.
\<close>

lemma projection_after_edit: "stats st \<noteq> None \<Longrightarrow> isProjection (handleStatChange k f v st)"
  by (auto simp: isProjection_def handleStatChange_def Let_def split: option.splits)

lemma projection_after_distance: "isProjection (pressDistance key st)"
  by (simp add: isProjection_def pressDistance_def split: option.splits)

lemma projection_after_strategy: "isProjection (pressStrategy key st)"
  by (simp add: isProjection_def pressStrategy_def split: option.splits)

lemma projection_after_successful_test_capture:
  "performOCR r = Some s \<Longrightarrow> isProjection (pressTestCapture (Some u) r st)"
  by (simp add: pressTestCapture_def capture_successful_read isProjection_def)

lemma stale_after_failed_read:
  "performOCR r = None \<Longrightarrow>
     stats (captureAndAnalyze d g (Some u) r st) = Some zeroStats
     \<and> calculated (captureAndAnalyze d g (Some u) r st) = calculated st"
  by (simp add: capture_failed_read)

text \<open>
  A capture from the overlay evaluates with the categories of the first render, not with
  the ones selected.
\<close>

lemma overlay_capture_evaluates_with_first_render:
  "performOCR r = Some s \<Longrightarrow>
     calculated (handleCaptureFromOverlay (Some u) r st) = Some (calculateEvaluation s Middle Nige)
     \<and> distance (handleCaptureFromOverlay (Some u) r st) = distance st
     \<and> strategy (handleCaptureFromOverlay (Some u) r st) = strategy st"
  by (simp add: handleCaptureFromOverlay_def capture_successful_read initialState_def)

text \<open>
  A capture that completes after the categories were changed evaluates with the old
  ones.
\<close>

lemma delayed_capture_evaluates_with_old_categories:
  "performOCR r = Some s \<Longrightarrow>
     calculated (step st (DelayedCapture d g (Some u) r)) = Some (calculateEvaluation s d g)
     \<and> distance (step st (DelayedCapture d g (Some u) r)) = distance st
     \<and> strategy (step st (DelayedCapture d g (Some u) r)) = strategy st"
  by (simp add: capture_successful_read)

text \<open>
  Along a session in which no read fails and every capture is one from the test button
  that completes before the next event, the stored result is the projection of the state
  throughout.
\<close>

lemma step_projection:
  assumes "isProjection st" and "recomputes e"
  shows "isProjection (step st e)"
proof (cases e)
  case (TestCapture captured recognized)
  show ?thesis
  proof (cases captured)
    case None
    then show ?thesis
      using assms(1) unfolding TestCapture
      by (simp add: pressTestCapture_def captureAndAnalyze_def isProjection_def
          split: option.splits)
  next
    case (Some u)
    then obtain s where "performOCR recognized = Some s"
      using assms(2) unfolding TestCapture by (auto simp: recomputes_def)
    then show ?thesis
      unfolding TestCapture Some by (simp add: projection_after_successful_test_capture)
  qed
next
  case (DelayedCapture d g captured recognized)
  then have "captured = None" using assms(2) by (simp add: recomputes_def)
  then show ?thesis
    using assms(1) unfolding DelayedCapture
    by (simp add: captureAndAnalyze_def isProjection_def split: option.splits)
next
  case (OverlayCapture captured recognized)
  then have "captured = None" using assms(2) by (simp add: recomputes_def)
  then show ?thesis
    using assms(1) unfolding OverlayCapture
    by (simp add: handleCaptureFromOverlay_def captureAndAnalyze_def isProjection_def
        split: option.splits)
next
  case (StatChange k f v)
  show ?thesis
  proof (cases "stats st")
    case None
    then show ?thesis using assms(1) unfolding StatChange by (simp add: handleStatChange_def)
  next
    case (Some s)
    then show ?thesis unfolding StatChange by (simp add: projection_after_edit)
  qed
next
  case (DistancePressed key)
  then show ?thesis by (simp add: projection_after_distance)
next
  case (StrategyPressed key)
  then show ?thesis by (simp add: projection_after_strategy)
qed

lemma run_projection: "list_all recomputes events \<Longrightarrow> isProjection (run events)"
proof (induction events rule: rev_induct)
  case Nil
  then show ?case by (simp add: run_def isProjection_def initialState_def)
next
  case (snoc e events)
  then show ?case using step_projection [of "run events" e] by (simp add: run_def)
qed

section \<open>The claims about the evaluation\<close>

text \<open>
  Claim C1. For every StatBlock, distance and strategy, the per-stat scores returned by
  \<open>calculateEvaluation\<close> are the current value of each stat multiplied by the
  coefficient of the distance and then by the coefficient of the strategy for that
  stat, with the tables of the specification, and the total is the sum of the five
  scores rounded to the nearest integer: for a finite sum \<open>x\<close> it is the integer
  \<open>\<lfloor>x + 1 / 2\<rfloor>\<close>, which is at most one half away from \<open>x\<close>; a sum that is NaN or
  an infinity is the total as it is.
\<close>

theorem evaluation_formula:
  "scores (calculateEvaluation s d g) = spec_scores s d g
   \<and> total' (calculateEvaluation s d g) =
       (case sum_scores (spec_scores s d g) of
          Fin x \<Rightarrow> Fin (of_int \<lfloor>x + 1 / 2\<rfloor>)
        | NaN \<Rightarrow> NaN
        | PInf \<Rightarrow> PInf
        | NInf \<Rightarrow> NInf)
   \<and> (\<forall>x. sum_scores (spec_scores s d g) = Fin x \<longrightarrow>
          \<bar>of_int \<lfloor>x + 1 / 2\<rfloor> - x\<bar> \<le> 1 / 2)"
proof -
  have "total' (calculateEvaluation s d g) = Math_round (sum_scores (spec_scores s d g))"
    using total_is_rounded_sum [of s d g] scores_are_products [of s d g] by simp
  moreover have "Math_round y =
      (case y of Fin x \<Rightarrow> Fin (of_int \<lfloor>x + 1 / 2\<rfloor>) | NaN \<Rightarrow> NaN | PInf \<Rightarrow> PInf
       | NInf \<Rightarrow> NInf)" for y
    by (cases y) simp_all
  moreover have "\<bar>of_int \<lfloor>x + 1 / 2\<rfloor> - x\<bar> \<le> 1 / 2" for x :: rat
    by linarith
  ultimately show ?thesis
    using scores_are_products [of s d g] by simp
qed

theorem evaluation_formula_witness:
  "spec_scores (uniformStats (Fin 1) (Fin 1)) Mile Nige =
     [Fin (5404319552844595 / 4503599627370496), Fin (1733885856537641 / 2251799813685248),
      Fin 1, Fin (3152519739159347 / 4503599627370496),
      Fin (5674535530486825 / 9007199254740992)]
   \<and> sum_scores (spec_scores (uniformStats (Fin 1) (Fin 1)) Mile Nige) =
     Fin (4841369599423283 / 1125899906842624)
   \<and> total' (calculateEvaluation (uniformStats (Fin 1) (Fin 1)) Mile Nige) = Fin 4
   \<and> \<bar>4 - 4841369599423283 / 1125899906842624\<bar> \<le> (1 / 2 :: rat)"
proof -
  have products: "spec_scores (uniformStats (Fin 1) (Fin 1)) Mile Nige =
      [Fin (5404319552844595 / 4503599627370496), Fin (1733885856537641 / 2251799813685248),
       Fin 1, Fin (3152519739159347 / 4503599627370496),
       Fin (5674535530486825 / 9007199254740992)]"
    using scores_are_products [of "uniformStats (Fin 1) (Fin 1)" Mile Nige]
    unfolding evaluation_of_1_mile_nige by (simp add: scores_def)
  have nearest: "\<lfloor>5404319552844595 / 1125899906842624 :: rat\<rfloor> = 4"
    by code_simp
  show ?thesis
    using evaluation_formula [of "uniformStats (Fin 1) (Fin 1)" Mile Nige]
    unfolding products sum_of_scores_of_1_mile_nige
    by (simp add: nearest)
qed

text \<open>
  Claim C3. The rating of a total follows the descending thresholds: SS from 6000, S
  from 5500, A+ from 5000, A from 4500, B from 4000, and C below (also for NaN, which
  compares false with every threshold); 6000 gives SS, 5999 gives S and 3999 gives C.
\<close>

theorem rating_thresholds:
  "getRating (Fin q) =
     (if 6000 \<le> q then ''SS''
      else if 5500 \<le> q then ''S''
      else if 5000 \<le> q then ''A+''
      else if 4500 \<le> q then ''A''
      else if 4000 \<le> q then ''B''
      else ''C'')
   \<and> getRating PInf = ''SS'' \<and> getRating NInf = ''C'' \<and> getRating NaN = ''C''
   \<and> getRating (Fin 6000) = ''SS'' \<and> getRating (Fin 5999) = ''S''
   \<and> getRating (Fin 3999) = ''C''"
  by (simp add: getRating_def fl_numeral_exact)

theorem rating_thresholds_witness:
  "getRating (Fin 5500) = ''S'' \<and> getRating (Fin (10999 / 2)) = ''A+''
   \<and> getRating (Fin 5000) = ''A+'' \<and> getRating (Fin 4500) = ''A''
   \<and> getRating (Fin 4000) = ''B'' \<and> getRating (Fin (- 1)) = ''C''"
  using rating_thresholds [of 5500] rating_thresholds [of "10999 / 2"]
    rating_thresholds [of 5000] rating_thresholds [of 4500] rating_thresholds [of 4000]
    rating_thresholds [of "- 1"]
  by simp

text \<open>
  Claim C4. For a StatBlock whose five current values are 1000 (whatever the maxima),
  the evaluation with distance middle and strategy front-runner (\<open>Nige\<close>) has the
  per-stat scores 1200, 1100, 1000, 1000, 900, the total 5200 and the rating A+; with
  distance long and strategy closer (\<open>Oikomi\<close>) it has the per-stat scores 720, 1200,
  960, 1440, 1320, the total 5640 and the rating S. The scores are these integers
  exactly, in double arithmetic, so the result card displays the same numbers.
\<close>

theorem examples_all_1000:
  assumes "current (speed s) = Fin 1000"
    and "current (stamina s) = Fin 1000"
    and "current (power' s) = Fin 1000"
    and "current (guts s) = Fin 1000"
    and "current (wisdom s) = Fin 1000"
  shows "calculateEvaluation s Middle Nige =
           \<lparr>individual =
              \<lparr>speed = Fin 1200, stamina = Fin 1100, power' = Fin 1000, guts = Fin 1000,
               wisdom = Fin 900\<rparr>,
            total' = Fin 5200, rating = ''A+''\<rparr>
       \<and> displayedScores (calculateEvaluation s Middle Nige) =
           [Fin 1200, Fin 1100, Fin 1000, Fin 1000, Fin 900]
       \<and> calculateEvaluation s Long Oikomi =
           \<lparr>individual =
              \<lparr>speed = Fin 720, stamina = Fin 1200, power' = Fin 960, guts = Fin 1440,
               wisdom = Fin 1320\<rparr>,
            total' = Fin 5640, rating = ''S''\<rparr>
       \<and> displayedScores (calculateEvaluation s Long Oikomi) =
           [Fin 720, Fin 1200, Fin 960, Fin 1440, Fin 1320]"
proof -
  have eq: "calculateEvaluation s d g = calculateEvaluation (uniformStats (Fin 1000) (Fin 1000)) d g"
    for d g
    by (rule calculateEvaluation_current) (simp_all add: assms uniformStats_def)
  show ?thesis
    unfolding eq evaluation_of_1000_middle_nige evaluation_of_1000_long_oikomi
    by (simp add: displayedScores_def Math_round_numeral del: Math_round.simps)
qed

theorem examples_all_1000_witness:
  "calculateEvaluation (uniformStats (Fin 1000) (Fin 0)) Middle Nige =
     \<lparr>individual =
        \<lparr>speed = Fin 1200, stamina = Fin 1100, power' = Fin 1000, guts = Fin 1000,
         wisdom = Fin 900\<rparr>,
      total' = Fin 5200, rating = ''A+''\<rparr>
   \<and> calculateEvaluation (uniformStats (Fin 1000) (Fin 0)) Long Oikomi =
     \<lparr>individual =
        \<lparr>speed = Fin 720, stamina = Fin 1200, power' = Fin 960, guts = Fin 1440,
         wisdom = Fin 1320\<rparr>,
      total' = Fin 5640, rating = ''S''\<rparr>"
  using examples_all_1000 [of "uniformStats (Fin 1000) (Fin 0)"]
  by (simp add: uniformStats_def)

text \<open>
  Claim C6. The total of a result is the rounding of the sum of the five unrounded
  per-stat scores; the result keeps the scores unrounded (they are the products) and
  only the result card rounds each of them. The order matters: for the StatBlock with
  every current value 1, distance mile and strategy front-runner, the total is 4 while
  the five displayed scores are 1 each and sum to 5.
\<close>

theorem total_rounds_the_unrounded_sum:
  "total' (calculateEvaluation s d g) = Math_round (sum_scores (scores (calculateEvaluation s d g)))
   \<and> scores (calculateEvaluation s d g) = spec_scores s d g
   \<and> displayedScores (calculateEvaluation s d g) = map Math_round (scores (calculateEvaluation s d g))
   \<and> total' (calculateEvaluation (uniformStats (Fin 1) (Fin 1)) Mile Nige) = Fin 4
   \<and> sum_scores (displayedScores (calculateEvaluation (uniformStats (Fin 1) (Fin 1)) Mile Nige)) =
       Fin 5"
proof -
  have "displayedScores r = map Math_round (scores r)" for r
    by (simp add: displayedScores_def scores_def del: Math_round.simps)
  moreover have "displayedScores (calculateEvaluation (uniformStats (Fin 1) (Fin 1)) Mile Nige) =
      [Fin 1, Fin 1, Fin 1, Fin 1, Fin 1]"
    unfolding evaluation_of_1_mile_nige displayedScores_def
    using rounded_scores_of_1_mile_nige by (simp del: Math_round.simps)
  ultimately show ?thesis
    using total_is_rounded_sum [of s d g] scores_are_products [of s d g] sum_of_five_ones
    by (simp add: evaluation_of_1_mile_nige del: Math_round.simps sum_scores.simps)
qed

theorem total_rounds_the_unrounded_sum_witness:
  "total' (calculateEvaluation (uniformStats (Fin 1000) (Fin 1000)) Middle Nige) =
     Math_round (sum_scores (scores (calculateEvaluation (uniformStats (Fin 1000) (Fin 1000)) Middle Nige)))
   \<and> displayedScores (calculateEvaluation (uniformStats (Fin 1000) (Fin 1000)) Middle Nige) =
     map Math_round (scores (calculateEvaluation (uniformStats (Fin 1000) (Fin 1000)) Middle Nige))
   \<and> scores (calculateEvaluation (uniformStats (Fin 1000) (Fin 1000)) Middle Nige) =
     [Fin 1200, Fin 1100, Fin 1000, Fin 1000, Fin 900]"
proof -
  have "scores (calculateEvaluation (uniformStats (Fin 1000) (Fin 1000)) Middle Nige) =
      [Fin 1200, Fin 1100, Fin 1000, Fin 1000, Fin 900]"
    by (simp add: evaluation_of_1000_middle_nige scores_def)
  with total_rounds_the_unrounded_sum [of "uniformStats (Fin 1000) (Fin 1000)" Middle Nige]
  show ?thesis by blast
qed

section \<open>The claims about the extraction\<close>

text \<open>
  Claim C2, as stated: the extraction fails when the text has fewer than ten digit runs
  of length 3 or 4, and otherwise maps the first ten of them, in order, to the ten
  fields. It fails on a text that begins with a run of five digits: the text below has
  nine runs of length 3 or 4, yet the extraction succeeds, and speed.current is 1234,
  taken from the long run, so that every later run lands one field further.
\<close>

theorem long_run_extraction_counterexample:
  "length (spec_tokens (ascii ''12345 200 300 400 500 600 700 800 900 1000'')) = 9
   \<and> performOCR (Some (ascii ''12345 200 300 400 500 600 700 800 900 1000'')) =
       Some \<lparr>speed = \<lparr>current = Fin 1234, max' = Fin 200\<rparr>,
             stamina = \<lparr>current = Fin 300, max' = Fin 400\<rparr>,
             power' = \<lparr>current = Fin 500, max' = Fin 600\<rparr>,
             guts = \<lparr>current = Fin 700, max' = Fin 800\<rparr>,
             wisdom = \<lparr>current = Fin 900, max' = Fin 1000\<rparr>\<rparr>"
proof -
  have runs: "spec_tokens (ascii ''12345 200 300 400 500 600 700 800 900 1000'') =
      map ascii [''200'', ''300'', ''400'', ''500'', ''600'', ''700'', ''800'', ''900'', ''1000'']"
    by code_simp
  have numbers: "matchAll (ascii ''12345 200 300 400 500 600 700 800 900 1000'') =
      map ascii [''1234'', ''200'', ''300'', ''400'', ''500'', ''600'', ''700'', ''800'', ''900'',
        ''1000'']"
    by code_simp
  have decimals: "map (mathInt 10)
      (map ascii [''1234'', ''200'', ''300'', ''400'', ''500'', ''600'', ''700'', ''800'', ''900'',
        ''1000'']) = [1234, 200, 300, 400, 500, 600, 700, 800, 900, 1000]"
    by code_simp
  show ?thesis
    using performOCR_decimal [of "ascii ''12345 200 300 400 500 600 700 800 900 1000''"] decimals
    unfolding runs numbers by simp
qed

text \<open>
  Claim C2, amended. What counts is the matches of the digit pattern, taken from left to
  right without overlap, a run of more than four digits giving several of them: the
  extraction returns no result when the pattern has fewer than ten matches in the text;
  when it has at least ten, the first ten matches, in the order they appear, become
  speed.current, speed.max, stamina.current, stamina.max, power.current, power.max,
  guts.current, guts.max, wisdom.current and wisdom.max, each read as a decimal number
  (\<open>mathInt 10\<close>). Every match is a string of three or four digits.
\<close>

theorem extraction_needs_ten_matches:
  "(length (matchAll s) < 10 \<longrightarrow> performOCR (Some s) = None)
   \<and> (10 \<le> length (matchAll s) \<longrightarrow>
        performOCR (Some s) = Some
          \<lparr>speed = \<lparr>current = Fin (of_nat (mathInt 10 (matchAll s ! 0))),
                    max' = Fin (of_nat (mathInt 10 (matchAll s ! 1)))\<rparr>,
           stamina = \<lparr>current = Fin (of_nat (mathInt 10 (matchAll s ! 2))),
                      max' = Fin (of_nat (mathInt 10 (matchAll s ! 3)))\<rparr>,
           power' = \<lparr>current = Fin (of_nat (mathInt 10 (matchAll s ! 4))),
                     max' = Fin (of_nat (mathInt 10 (matchAll s ! 5)))\<rparr>,
           guts = \<lparr>current = Fin (of_nat (mathInt 10 (matchAll s ! 6))),
                   max' = Fin (of_nat (mathInt 10 (matchAll s ! 7)))\<rparr>,
           wisdom = \<lparr>current = Fin (of_nat (mathInt 10 (matchAll s ! 8))),
                     max' = Fin (of_nat (mathInt 10 (matchAll s ! 9)))\<rparr>\<rparr>)
   \<and> (\<forall>m \<in> set (matchAll s). (length m = 3 \<or> length m = 4) \<and> list_all isDigit m)"
  using performOCR_short [of s] performOCR_decimal [of s] matchAll_tokens [of _ s] by blast

theorem extraction_needs_ten_matches_witness:
  "length (matchAll (ascii ''100 200 300 400 500 600 700 800 900'')) < 10
   \<and> performOCR (Some (ascii ''100 200 300 400 500 600 700 800 900'')) = None
   \<and> 10 \<le> length (matchAll (ascii ''100 / 200, 3004005 5 600 70 700 800-900 1000 1100 1200''))
   \<and> performOCR (Some (ascii ''100 / 200, 3004005 5 600 70 700 800-900 1000 1100 1200'')) = Some
          \<lparr>speed = \<lparr>current = Fin 100, max' = Fin 200\<rparr>,
           stamina = \<lparr>current = Fin 3004, max' = Fin 5\<rparr>,
           power' = \<lparr>current = Fin 600, max' = Fin 700\<rparr>,
           guts = \<lparr>current = Fin 800, max' = Fin 900\<rparr>,
           wisdom = \<lparr>current = Fin 1000, max' = Fin 1100\<rparr>\<rparr>"
  using extraction_needs_ten_matches [of "ascii ''100 200 300 400 500 600 700 800 900''"]
    extraction_needs_ten_matches
      [of "ascii ''100 / 200, 3004005 5 600 70 700 800-900 1000 1100 1200''"]
    values_of_eleven_numbers
  unfolding matches_of_nine_numbers matches_of_eleven_numbers
  by simp

text \<open>
  Claim C5, as stated: the tokens collected from a text are its maximal runs of digits
  of length 3 or 4, and a longer run gives no token. It fails on the run \<^verbatim>\<open>12345\<close>,
  from which the pattern takes \<^verbatim>\<open>1234\<close>.
\<close>

theorem long_run_counterexample:
  "matchAll (ascii ''12345'') = map ascii [''1234'']
   \<and> spec_tokens (ascii ''12345'') = []
   \<and> matchAll (ascii ''12345'') \<noteq> spec_tokens (ascii ''12345'')"
  by code_simp

text \<open>
  Claim C5, amended. The tokens are taken from the maximal runs of digits, in order of
  appearance: each run is cut from the left into pieces of four digits, a last piece of
  three digits is a token too, and a last piece of one or two digits is dropped. So a
  run of 3 or 4 digits is one token, a run of 1 or 2 digits gives none, and a longer run
  gives the tokens of its pieces.
\<close>

theorem tokens_are_chunks_of_runs:
  "matchAll s = concat (map chunks (digitRuns s))"
proof (induction s rule: digitRuns.induct)
  case 1
  then show ?case by simp
next
  case (2 c cs)
  show ?case
  proof (cases "isDigit c")
    case False
    with 2 show ?thesis by (simp add: matchAt_None)
  next
    case True
    let ?r = "takeWhile isDigit (c # cs)"
    let ?rest = "dropWhile isDigit cs"
    have split: "?r @ ?rest = c # cs" using True by simp
    have "list_all isDigit ?r" by (auto simp: list_all_iff dest: set_takeWhileD)
    moreover have "?rest = [] \<or> \<not> isDigit (hd ?rest)"
      using hd_dropWhile [of isDigit cs] by blast
    ultimately have "matchAll (?r @ ?rest) = chunks ?r @ matchAll ?rest"
      by (rule matchAll_run)
    then have "matchAll (c # cs) = chunks ?r @ matchAll ?rest"
      by (simp only: split)
    also have "matchAll ?rest = concat (map chunks (digitRuns ?rest))"
      using 2 True by simp
    finally show ?thesis using True by simp
  qed
qed

theorem tokens_are_chunks_of_runs_witness:
  "digitRuns (ascii ''Lv12 1234567 890/12345678'') =
     map ascii [''12'', ''1234567'', ''890'', ''12345678'']
   \<and> matchAll (ascii ''Lv12 1234567 890/12345678'') =
     map ascii [''1234'', ''567'', ''890'', ''1234'', ''5678'']"
proof -
  have runs: "digitRuns (ascii ''Lv12 1234567 890/12345678'') =
      map ascii [''12'', ''1234567'', ''890'', ''12345678'']"
    by code_simp
  have pieces: "concat (map chunks (map ascii [''12'', ''1234567'', ''890'', ''12345678''])) =
      map ascii [''1234'', ''567'', ''890'', ''1234'', ''5678'']"
    by code_simp
  show ?thesis
    using tokens_are_chunks_of_runs [of "ascii ''Lv12 1234567 890/12345678''"]
    unfolding runs pieces by simp
qed

section \<open>The claims about the state\<close>

text \<open>
  Claim C8 says that after every operation on the StatBlock or the categories the stored
  result is the evaluation of the current StatBlock with the current categories. The
  branch of \<^verbatim>\<open>captureAndAnalyze\<close> for a failed read stores the zeroed StatBlock and
  leaves the stored result alone: after a capture that reads ten times 1000 and a second
  capture that reads nothing, the StatBlock is zero and the stored result is still the
  one of the first capture (total 5200, rating A+), while the evaluation of the zeroed
  StatBlock has total 0 and rating C.
\<close>

theorem stale_result_after_failed_read:
  "stats (run [TestCapture (Some (ascii ''uri''))
                 (Some (ascii ''1000 1000 1000 1000 1000 1000 1000 1000 1000 1000'')),
               TestCapture (Some (ascii ''uri'')) (Some (ascii ''''))]) = Some zeroStats
   \<and> calculated (run [TestCapture (Some (ascii ''uri''))
                 (Some (ascii ''1000 1000 1000 1000 1000 1000 1000 1000 1000 1000'')),
               TestCapture (Some (ascii ''uri'')) (Some (ascii ''''))]) =
       Some \<lparr>individual =
               \<lparr>speed = Fin 1200, stamina = Fin 1100, power' = Fin 1000, guts = Fin 1000,
                wisdom = Fin 900\<rparr>,
             total' = Fin 5200, rating = ''A+''\<rparr>
   \<and> calculateEvaluation zeroStats Middle Nige =
       \<lparr>individual =
          \<lparr>speed = Fin 0, stamina = Fin 0, power' = Fin 0, guts = Fin 0, wisdom = Fin 0\<rparr>,
        total' = Fin 0, rating = ''C''\<rparr>
   \<and> \<not> isProjection (run [TestCapture (Some (ascii ''uri''))
                 (Some (ascii ''1000 1000 1000 1000 1000 1000 1000 1000 1000 1000'')),
               TestCapture (Some (ascii ''uri'')) (Some (ascii ''''))])"
  by (simp add: run_def pressTestCapture_def capture_successful_read [OF performOCR_ten_thousands]
      capture_failed_read [OF performOCR_empty] initialState_def isProjection_def
      evaluation_of_1000_middle_nige evaluation_of_zero_middle_nige)

text \<open>
  Claim C9, as stated: every reachable StatBlock has non-negative integer values. It
  fails for a manual edit: after a failed read, typing \<^verbatim>\<open>-5\<close> into the current speed
  stores \<open>-5\<close>.
\<close>

theorem negative_edit_counterexample:
  "\<not> statsSatisfy (everyValue nonnegInteger)
       (run [TestCapture (Some (ascii ''uri'')) None, StatChange Speed Current (ascii ''-5'')])"
  by (simp add: run_def statsSatisfy_def stats_handleStatChange pressTestCapture_def
      capture_failed_read performOCR_None parseInt_minus_5 or_zero_def everyValue_def
      zeroStats_def)

text \<open>
  Claim C9, amended. Every StatBlock that the extraction returns has non-negative integer
  values, and so has the zeroed placeholder. A manual edit stores the integer that
  parseInt reads, which may be negative (or an infinity, beyond the range of a double),
  and zero when it reads none; so in every reachable state each of the ten values is an
  integer or an infinity, never NaN and never a fraction. Nothing relates current and
  max.
\<close>

theorem reachable_stats_are_integers:
  "statsSatisfy (everyValue integerOrInfinite) (run events)
   \<and> (\<forall>r s. performOCR r = Some s \<longrightarrow> everyValue nonnegInteger s)
   \<and> everyValue nonnegInteger zeroStats"
  using run_integerOrInfinite performOCR_nonneg everyValue_zeroStats by blast

theorem reachable_stats_are_integers_witness:
  "statsSatisfy (everyValue integerOrInfinite)
     (run [TestCapture (Some (ascii ''uri'')) None, StatChange Speed Current (ascii ''-5'')])
   \<and> performOCR (Some (ascii ''1000 1000 1000 1000 1000 1000 1000 1000 1000 1000'')) =
       Some (uniformStats (Fin 1000) (Fin 1000))
   \<and> everyValue nonnegInteger (uniformStats (Fin 1000) (Fin 1000))"
  using reachable_stats_are_integers
    [of "[TestCapture (Some (ascii ''uri'')) None, StatChange Speed Current (ascii ''-5'')]"]
    performOCR_ten_thousands
  by blast



end
